theory Spec2Isabelle
  imports Main "HOL-Library.Sublist"
begin

section \<open>The page as the script sees it\<close>

text \<open>
  \<^verbatim>\<open>public/custom.js\<close> holds two revisions of one script, one after the other, each an
  immediately invoked function: the first at lines 4-278, the second at lines 283-481
  (every line of the file is behind \<^verbatim>\<open>//\<close>; the embedding is of the two revisions
  as they are written). A definition that embeds a function of the first revision ends
  in \<open>_v1\<close>, one of the second in \<open>_v2\<close>; \<open>focusInput\<close> is the same in both.

  The script runs in a browser, so the state is the page: the document, the element
  properties the script reads and writes, and what it registers with the platform
  (timers, listeners, mutation observers). Elements are references into a store, since
  closures of the script keep references across a timer's delay.

  The document is the list of its elements in document order: \<open>head_nodes\<close> holds
  the \<^verbatim>\<open>head\<close> element and its subtree, \<open>body_nodes\<close> the \<^verbatim>\<open>body\<close> element and
  its subtree. \<^verbatim>\<open>querySelector\<close> and \<^verbatim>\<open>getElementById\<close> return the first match in
  that order; no selector of the script has a combinator, so a selector is a predicate
  on one element. \<open>parent_of\<close> is the parent of each element, which is the way an
  event takes when it bubbles. \<open>tag\<close> is the local name of an element, in lower case
  as the parser of an HTML document leaves it.
\<close>

type_synonym ref = nat

text \<open>What a click handler of a quick-action button does, by revision.\<close>

datatype click_handler =
    SendQuery ref
  | FillQuery string

record element =
  tag :: string
  ident :: string
  classes :: "string list"
  testid :: "string option"
  type_attr :: "string option"
  disabled :: bool
  val :: string
  placeholder :: string
  placeholderSet :: "string option"
  data_query :: "string option"
  onclick :: "click_handler option"
  textContent :: string

text \<open>
  The callbacks the script hands to \<^verbatim>\<open>setTimeout\<close>, \<^verbatim>\<open>setInterval\<close> and
  \<^verbatim>\<open>addEventListener('DOMContentLoaded', ...)\<close>, with what each closure captures.
\<close>

datatype task =
    SetPlaceholder_v1
  | SetPlaceholder_v2
  | FocusInput
  | AddQuickActions_v1
  | ClickSend "ref option"
  | InsertPanel "ref list"
  | OnReady_v1
  | OnReady_v2

datatype key_handler = Keys_v1 | Keys_v2

datatype observer = Watch_v1 | Watch_v2

record key_event =
  metaKey :: bool
  ctrlKey :: bool
  key :: string

record page =
  readyLoading :: bool
  head_nodes :: "ref list"
  body_nodes :: "ref list"
  store :: "ref \<Rightarrow> element"
  parent_of :: "ref \<Rightarrow> ref option"
  next_ref :: nat
  active :: "ref option"
  selected :: "ref option"
  timeouts :: "(nat \<times> task) list"
  intervals :: "(nat \<times> task) list"
  keydown_listeners :: "key_handler list"
  dcl_listeners :: "task list"
  observers :: "observer list"
  click_listeners :: "(ref \<times> click_handler) list"
  inputs :: "(ref \<times> bool) list"
  click_calls :: "ref list"
  click_events :: "ref list"
  prevented :: nat
  console :: "string list"

subsection \<open>Platform operations\<close>

definition blank :: "string \<Rightarrow> element" where
  "blank t = \<lparr>tag = t, ident = [], classes = [], testid = None, type_attr = None,
     disabled = False, val = [], placeholder = [], placeholderSet = None,
     data_query = None, onclick = None, textContent = []\<rparr>"

definition nodes :: "page \<Rightarrow> ref list" where
  "nodes s = head_nodes s @ body_nodes s"

definition querySelector :: "(element \<Rightarrow> bool) \<Rightarrow> page \<Rightarrow> ref option" where
  "querySelector sel s = find (\<lambda>r. sel (store s r)) (nodes s)"

definition getElementById :: "string \<Rightarrow> page \<Rightarrow> ref option" where
  "getElementById i s = find (\<lambda>r. ident (store s r) = i) (nodes s)"

text \<open>The number of elements of the document that carry an id.\<close>

definition count_id :: "string \<Rightarrow> page \<Rightarrow> nat" where
  "count_id i s = length (filter (\<lambda>r. ident (store s r) = i) (nodes s))"

text \<open>A JavaScript string is falsy exactly when it is empty; \<^verbatim>\<open>undefined\<close> is falsy.\<close>

definition truthy :: "string option \<Rightarrow> bool" where
  "truthy v = (case v of None \<Rightarrow> False | Some x \<Rightarrow> x \<noteq> [])"

definition upd :: "ref \<Rightarrow> (element \<Rightarrow> element) \<Rightarrow> page \<Rightarrow> page" where
  "upd r f s = s\<lparr>store := (store s)(r := f (store s r))\<rparr>"

text \<open>\<^verbatim>\<open>document.createElement\<close>: a new element, not in the document.\<close>

definition createElement :: "element \<Rightarrow> page \<Rightarrow> ref \<times> page" where
  "createElement e s =
     (next_ref s, s\<lparr>store := (store s)(next_ref s := e), next_ref := Suc (next_ref s)\<rparr>)"

primrec create_all :: "element list \<Rightarrow> page \<Rightarrow> ref list \<times> page" where
  "create_all [] s = ([], s)"
| "create_all (e # es) s =
     (case createElement e s of (r, s1) \<Rightarrow>
        (case create_all es s1 of (rs, s2) \<Rightarrow> (r # rs, s2)))"

text \<open>
  \<open>focus\<close> makes the element the active one, unless it is disabled: a disabled control
  cannot take the focus, and \<^verbatim>\<open>focus()\<close> leaves the active element as it is.
  \<open>click\<close> records the call, and the platform dispatches the click event unless the
  element is disabled (\<^verbatim>\<open>HTMLElement.click()\<close> returns at once on a disabled form
  control).
\<close>

definition focus :: "ref \<Rightarrow> page \<Rightarrow> page" where
  "focus r s = (if disabled (store s r) then s else s\<lparr>active := Some r\<rparr>)"

text \<open>
  The setter of \<^verbatim>\<open>value\<close> of a \<^verbatim>\<open>textarea\<close>: what is read back has every
  CR LF pair and every other CR replaced by one LF. \<open>crlf\<close> goes through the text, its
  flag telling that the character before was a CR.
\<close>

primrec crlf :: "bool \<Rightarrow> string \<Rightarrow> string" where
  "crlf after_cr [] = []"
| "crlf after_cr (c # cs) =
     (if c = CHR 0x0D then CHR 0x0A # crlf True cs
      else if c = CHR 0x0A \<and> after_cr then crlf False cs
      else c # crlf False cs)"

definition normalize_newlines :: "string \<Rightarrow> string" where
  "normalize_newlines v = crlf False v"

definition set_value :: "ref \<Rightarrow> string \<Rightarrow> page \<Rightarrow> page" where
  "set_value r v s = upd r (\<lambda>e. e\<lparr>val := normalize_newlines v\<rparr>) s"

definition blur :: "ref \<Rightarrow> page \<Rightarrow> page" where
  "blur r s = (if active s = Some r then s\<lparr>active := None\<rparr> else s)"

definition select :: "ref \<Rightarrow> page \<Rightarrow> page" where
  "select r s = s\<lparr>selected := Some r\<rparr>"

definition click :: "ref \<Rightarrow> page \<Rightarrow> page" where
  "click r s = s\<lparr>click_calls := click_calls s @ [r],
     click_events := (if disabled (store s r) then click_events s else click_events s @ [r])\<rparr>"

definition dispatchInput :: "ref \<Rightarrow> bool \<Rightarrow> page \<Rightarrow> page" where
  "dispatchInput r bubbles s = s\<lparr>inputs := inputs s @ [(r, bubbles)]\<rparr>"

definition preventDefault :: "page \<Rightarrow> page" where
  "preventDefault s = s\<lparr>prevented := Suc (prevented s)\<rparr>"

definition setTimeout :: "task \<Rightarrow> nat \<Rightarrow> page \<Rightarrow> page" where
  "setTimeout f ms s = s\<lparr>timeouts := timeouts s @ [(ms, f)]\<rparr>"

definition setInterval :: "task \<Rightarrow> nat \<Rightarrow> page \<Rightarrow> page" where
  "setInterval f ms s = s\<lparr>intervals := intervals s @ [(ms, f)]\<rparr>"

text \<open>
  Insertion in document order. \<^verbatim>\<open>insertAdjacentElement('afterbegin', c)\<close> makes \<open>c\<close>
  the first child of the anchor: its subtree follows the anchor at once.
  \<^verbatim>\<open>insertAdjacentElement('beforebegin', c)\<close> makes \<open>c\<close> the sibling before the anchor:
  its subtree precedes the anchor at once. An element that is already in the document is
  moved, so the subtree is taken out first.
\<close>

fun insert_after :: "ref \<Rightarrow> ref list \<Rightarrow> ref list \<Rightarrow> ref list" where
  "insert_after a sub [] = []"
| "insert_after a sub (x # xs) = (if x = a then x # sub @ xs else x # insert_after a sub xs)"

fun insert_before :: "ref \<Rightarrow> ref list \<Rightarrow> ref list \<Rightarrow> ref list" where
  "insert_before a sub [] = []"
| "insert_before a sub (x # xs) = (if x = a then sub @ x # xs else x # insert_before a sub xs)"

definition detach :: "ref list \<Rightarrow> page \<Rightarrow> page" where
  "detach sub s = s\<lparr>head_nodes := filter (\<lambda>r. r \<notin> set sub) (head_nodes s),
                    body_nodes := filter (\<lambda>r. r \<notin> set sub) (body_nodes s)\<rparr>"

definition place :: "(ref \<Rightarrow> ref list \<Rightarrow> ref list \<Rightarrow> ref list) \<Rightarrow> ref \<Rightarrow> ref list \<Rightarrow> page \<Rightarrow> page" where
  "place ins a sub s =
     (if a \<in> set (head_nodes s) then s\<lparr>head_nodes := ins a sub (head_nodes s)\<rparr>
      else s\<lparr>body_nodes := ins a sub (body_nodes s)\<rparr>)"

text \<open>The root of a subtree (its first element in document order) gets a parent.\<close>

definition set_parent :: "ref list \<Rightarrow> ref option \<Rightarrow> page \<Rightarrow> page" where
  "set_parent sub p s =
     (case sub of [] \<Rightarrow> s | c # _ \<Rightarrow> s\<lparr>parent_of := (parent_of s)(c := p)\<rparr>)"

definition insertAfterBegin :: "ref \<Rightarrow> ref list \<Rightarrow> page \<Rightarrow> page" where
  "insertAfterBegin a sub s = set_parent sub (Some a) (place insert_after a sub (detach sub s))"

definition insertBeforeBegin :: "ref \<Rightarrow> ref list \<Rightarrow> page \<Rightarrow> page" where
  "insertBeforeBegin a sub s =
     set_parent sub (parent_of s a) (place insert_before a sub (detach sub s))"

text \<open>What the host does when it removes a subtree from the document.\<close>

definition removeSubtree :: "ref list \<Rightarrow> page \<Rightarrow> page" where
  "removeSubtree sub s = set_parent sub None (detach sub s)"

text \<open>
  \<^verbatim>\<open>document.head.appendChild\<close>: the last element of the head subtree, a child of
  the \<^verbatim>\<open>head\<close> element.
\<close>

definition appendToHead :: "ref \<Rightarrow> page \<Rightarrow> page" where
  "appendToHead r s =
     (let s1 = detach [r] s
      in set_parent [r] (case head_nodes s of [] \<Rightarrow> None | h # _ \<Rightarrow> Some h)
           (s1\<lparr>head_nodes := head_nodes s1 @ [r]\<rparr>))"

text \<open>
  The nesting inside a subtree that was created as a list of elements: each pair is
  the position of a child and the position of its parent in that list.
\<close>

definition link :: "ref list \<Rightarrow> (nat \<times> nat) list \<Rightarrow> page \<Rightarrow> page" where
  "link sub pairs s =
     s\<lparr>parent_of := foldl (\<lambda>f cp. f(sub ! fst cp := Some (sub ! snd cp))) (parent_of s)
                          (filter (\<lambda>cp. fst cp < length sub \<and> snd cp < length sub) pairs)\<rparr>"

subsection \<open>Selectors\<close>

text \<open>\<^verbatim>\<open>'textarea'\<close>\<close>

definition sel_textarea :: "element \<Rightarrow> bool" where
  "sel_textarea e = (tag e = ''textarea'')"

text \<open>
  \<^verbatim>\<open>'[data-testid="send-button"], button[type="submit"]'\<close> (first revision,
  sendMessage). In an HTML document the value of \<^verbatim>\<open>type\<close> is compared without regard
  to the case of ASCII letters, the value of \<^verbatim>\<open>data-testid\<close> as it is.
\<close>

definition ascii_lower :: "char \<Rightarrow> char" where
  "ascii_lower c =
     (case map_of (zip ''ABCDEFGHIJKLMNOPQRSTUVWXYZ'' ''abcdefghijklmnopqrstuvwxyz'') c of
        None \<Rightarrow> c
      | Some l \<Rightarrow> l)"

definition sel_send_v1 :: "element \<Rightarrow> bool" where
  "sel_send_v1 e = (testid e = Some ''send-button'' \<or>
                    (tag e = ''button'' \<and>
                     map_option (map ascii_lower) (type_attr e) = Some ''submit''))"

text \<open>\<^verbatim>\<open>'[data-testid="send-button"]'\<close> (second revision, the submit shortcut)\<close>

definition sel_send_v2 :: "element \<Rightarrow> bool" where
  "sel_send_v2 e = (testid e = Some ''send-button'')"

text \<open>\<^verbatim>\<open>'[data-testid="messages-container"], .cl__messages, main'\<close>\<close>

definition sel_messages_v1 :: "element \<Rightarrow> bool" where
  "sel_messages_v1 e = (testid e = Some ''messages-container'' \<or>
                        ''cl__messages'' \<in> set (classes e) \<or> tag e = ''main'')"

text \<open>\<^verbatim>\<open>'.cl__composer, [data-testid="input-box"]'\<close>\<close>

definition sel_composer_v2 :: "element \<Rightarrow> bool" where
  "sel_composer_v2 e = (''cl__composer'' \<in> set (classes e) \<or> testid e = Some ''input-box'')"

text \<open>\<^verbatim>\<open>'.quick-action-btn'\<close>\<close>

definition sel_quick_btn :: "element \<Rightarrow> bool" where
  "sel_quick_btn e = (''quick-action-btn'' \<in> set (classes e))"

section \<open>First revision (lines 4-278)\<close>

definition placeholder_text_v1 :: string where
  "placeholder_text_v1 =
     ''Ask about energy markets... e.g., 'DAM yesterday' or 'GDAM 20-50 slots Oct 2024'' @ [CHR 0x27]"

text \<open>The inner function of updatePlaceholder (lines 35-41).\<close>

definition setPlaceholder_v1 :: "page \<Rightarrow> page" where
  "setPlaceholder_v1 s =
     (case querySelector sel_textarea s of
        None \<Rightarrow> s
      | Some t \<Rightarrow>
          if \<not> truthy (placeholderSet (store s t))
          then upd t (\<lambda>e. e\<lparr>placeholder := placeholder_text_v1, placeholderSet := Some ''true''\<rparr>) s
          else s)"

definition updatePlaceholder_v1 :: "page \<Rightarrow> page" where
  "updatePlaceholder_v1 s = setInterval SetPlaceholder_v1 1000 (setPlaceholder_v1 s)"

text \<open>focusInput (lines 51-58, and 327-334): the body runs when the 500 ms timer fires.\<close>

definition focusInput_fire :: "page \<Rightarrow> page" where
  "focusInput_fire s =
     (case querySelector sel_textarea s of None \<Rightarrow> s | Some t \<Rightarrow> focus t s)"

definition focusInput :: "page \<Rightarrow> page" where
  "focusInput s = setTimeout FocusInput 500 s"

text \<open>
  sendMessage (lines 225-246). Both elements are resolved when the function is called;
  the timer's closure keeps \<open>sendButton\<close> and reads its \<open>disabled\<close> when it fires.
\<close>

definition sendMessage_fire :: "ref option \<Rightarrow> page \<Rightarrow> page" where
  "sendMessage_fire sendButton s =
     (case sendButton of
        None \<Rightarrow> s
      | Some b \<Rightarrow> if \<not> disabled (store s b) then click b s else s)"

definition sendMessage_v1 :: "string \<Rightarrow> page \<Rightarrow> page" where
  "sendMessage_v1 txt s =
     (let textarea = querySelector sel_textarea s;
          sendButton = querySelector sel_send_v1 s
      in case textarea of
           None \<Rightarrow> s
         | Some t \<Rightarrow>
             setTimeout (ClickSend sendButton) 100
               (focus t (dispatchInput t True (set_value t txt s))))"

text \<open>
  The panel of the first revision (lines 69-148): the container and what its
  \<^verbatim>\<open>innerHTML\<close> parses to, in document order. Style rules and the emoji glyphs are
  presentation; the glyphs are written as code points.
\<close>

definition quick_btn_v1 :: "string \<Rightarrow> string \<Rightarrow> string \<Rightarrow> element list" where
  "quick_btn_v1 q glyph caption =
     [(blank ''button'')\<lparr>classes := [''quick-action-btn''], data_query := Some q\<rparr>,
      (blank ''span'')\<lparr>classes := [''emoji''], textContent := glyph\<rparr>,
      (blank ''span'')\<lparr>classes := [''text''], textContent := caption\<rparr>]"

definition panel_v1 :: "element list" where
  "panel_v1 =
     [(blank ''div'')\<lparr>ident := ''quick-actions''\<rparr>,
      blank ''style'',
      (blank ''div'')\<lparr>ident := ''quick-actions-title'', textContent := ''Quick Examples''\<rparr>,
      (blank ''div'')\<lparr>classes := [''quick-actions-grid'']\<rparr>]
     @ quick_btn_v1 ''DAM yesterday'' ''U+1F4CA'' ''DAM Yesterday''
     @ quick_btn_v1 ''GDAM today'' ''U+1F7E2'' ''GDAM Today''
     @ quick_btn_v1 ''Compare Nov 2022, 2023, 2024'' ''U+1F4C8'' ''Compare Years''
     @ quick_btn_v1 ''Show detailed list for last week'' ''U+1F4CB'' ''Detailed List''"

text \<open>
  The nesting of that markup: the style element, the title and the grid are children
  of the container, the buttons children of the grid, the two spans of a button its
  children.
\<close>

definition panel_nesting_v1 :: "(nat \<times> nat) list" where
  "panel_nesting_v1 =
     [(1, 0), (2, 0), (3, 0),
      (4, 3), (5, 4), (6, 4),
      (7, 3), (8, 7), (9, 7),
      (10, 3), (11, 10), (12, 10),
      (13, 3), (14, 13), (15, 13)]"

text \<open>
  addQuickActions (lines 64-163). \<^verbatim>\<open>container.querySelectorAll\<close> searches below the
  container, so the container itself is left out of the search.
\<close>

definition addQuickActions_v1 :: "page \<Rightarrow> page" where
  "addQuickActions_v1 s =
     (if getElementById ''quick-actions'' s \<noteq> None then s
      else
        case create_all panel_v1 s of (container, s0) \<Rightarrow>
          let s1 = link container panel_nesting_v1 s0
          in (case querySelector sel_messages_v1 s1 of
             None \<Rightarrow> s1
           | Some m \<Rightarrow>
               let s2 = insertAfterBegin m container s1;
                   btns = filter (\<lambda>r. sel_quick_btn (store s2 r)) (tl container)
               in s2\<lparr>click_listeners := click_listeners s2 @ map (\<lambda>b. (b, SendQuery b)) btns\<rparr>))"

text \<open>setupKeyboardShortcuts (lines 169-190) and the listener it registers.\<close>

definition keys_v1 :: "key_event \<Rightarrow> page \<Rightarrow> page" where
  "keys_v1 e s =
     (let s1 =
        (if (metaKey e \<or> ctrlKey e) \<and> key e = ''k''
         then let s0 = preventDefault s
              in (case querySelector sel_textarea s0 of
                    None \<Rightarrow> s0
                  | Some t \<Rightarrow> select t (focus t s0))
         else s)
      in if key e = ''Escape''
         then (case querySelector sel_textarea s1 of
                 None \<Rightarrow> s1
               | Some t \<Rightarrow>
                   if active s1 = Some t then blur t (set_value t [] s1) else s1)
         else s1)"

definition setupKeyboardShortcuts_v1 :: "page \<Rightarrow> page" where
  "setupKeyboardShortcuts_v1 s = s\<lparr>keydown_listeners := keydown_listeners s @ [Keys_v1]\<rparr>"

text \<open>addWelcomeAnimation (lines 196-219): one style element appended to the head.\<close>

definition addWelcomeAnimation_v1 :: "page \<Rightarrow> page" where
  "addWelcomeAnimation_v1 s =
     (case createElement ((blank ''style'')\<lparr>textContent := ''@keyframes fadeInUp''\<rparr>) s of
        (r, s1) \<Rightarrow> appendToHead r s1)"

text \<open>observeChanges (lines 252-266): the callback, and the subscription.\<close>

definition callback_v1 :: "page \<Rightarrow> page" where
  "callback_v1 s =
     (let s1 = updatePlaceholder_v1 s
      in if getElementById ''quick-actions'' s1 = None
         then setTimeout AddQuickActions_v1 500 s1
         else s1)"

definition observeChanges_v1 :: "page \<Rightarrow> page" where
  "observeChanges_v1 s = s\<lparr>observers := observers s @ [Watch_v1]\<rparr>"

text \<open>onReady (lines 8-28) and the body of the script (lines 272-276).\<close>

definition onReady_v1 :: "page \<Rightarrow> page" where
  "onReady_v1 s =
     observeChanges_v1 (addWelcomeAnimation_v1 (setupKeyboardShortcuts_v1
       (addQuickActions_v1 (focusInput (updatePlaceholder_v1
          (s\<lparr>console := console s @ [''U+2705 EM Spark UI initialized'']\<rparr>))))))"

definition script_v1 :: "page \<Rightarrow> page" where
  "script_v1 s =
     (if readyLoading s then s\<lparr>dcl_listeners := dcl_listeners s @ [OnReady_v1]\<rparr>
      else onReady_v1 s)"

section \<open>Second revision (lines 283-481)\<close>

definition placeholder_text_v2 :: string where
  "placeholder_text_v2 =
     ''Ask about energy markets... e.g., 'DAM yesterday' or 'GDAM 20-50 slots'' @ [CHR 0x27]"

text \<open>updatePlaceholder (lines 312-322).\<close>

definition setPlaceholder_v2 :: "page \<Rightarrow> page" where
  "setPlaceholder_v2 s =
     (case querySelector sel_textarea s of
        None \<Rightarrow> s
      | Some t \<Rightarrow>
          if \<not> truthy (placeholderSet (store s t))
          then upd t (\<lambda>e. e\<lparr>placeholder := placeholder_text_v2, placeholderSet := Some ''true''\<rparr>) s
          else s)"

definition updatePlaceholder_v2 :: "page \<Rightarrow> page" where
  "updatePlaceholder_v2 s = setInterval SetPlaceholder_v2 1000 (setPlaceholder_v2 s)"

text \<open>The catalog of addQuickActions (lines 342-347).\<close>

record example =
  emoji :: string
  label :: string
  query :: string

definition examples_v2 :: "example list" where
  "examples_v2 =
     [\<lparr>emoji = ''U+1F4CA'', label = ''DAM rate today'', query = ''DAM rate for today''\<rparr>,
      \<lparr>emoji = ''U+1F7E2'', label = ''GDAM yesterday'', query = ''GDAM rate for yesterday''\<rparr>,
      \<lparr>emoji = ''U+1F535'', label = ''RTM last hour'', query = ''RTM rate for last hour''\<rparr>,
      \<lparr>emoji = ''U+1F4C8'', label = ''Compare markets'', query = ''Compare DAM and GDAM for today''\<rparr>]"

text \<open>
  The button of one catalog entry (lines 360-392). Its \<^verbatim>\<open>onclick\<close> captures the
  entry; the hover handlers change colours only.
\<close>

definition button_v2 :: "example \<Rightarrow> element" where
  "button_v2 ex = (blank ''button'')\<lparr>textContent := emoji ex @ '' '' @ label ex,
                                     onclick := Some (FillQuery (query ex))\<rparr>"

text \<open>The \<^verbatim>\<open>onclick\<close> of a button (lines 383-390).\<close>

definition fillQuery_v2 :: "string \<Rightarrow> page \<Rightarrow> page" where
  "fillQuery_v2 q s =
     (case querySelector sel_textarea s of
        None \<Rightarrow> s
      | Some t \<Rightarrow> dispatchInput t True (focus t (set_value t q s)))"

text \<open>
  addQuickActions (lines 339-401): the guard and the construction run at the call (each
  button is appended to the container, line 392), the insertion when the 1000 ms timer
  fires (lines 395-400).
\<close>

definition insertPanel_v2 :: "ref list \<Rightarrow> page \<Rightarrow> page" where
  "insertPanel_v2 container s =
     (case querySelector sel_composer_v2 s of
        None \<Rightarrow> s
      | Some a \<Rightarrow> insertBeforeBegin a container s)"

definition addQuickActions_v2 :: "page \<Rightarrow> page" where
  "addQuickActions_v2 s =
     (if getElementById ''quick-actions'' s \<noteq> None then s
      else
        case createElement ((blank ''div'')\<lparr>ident := ''quick-actions''\<rparr>) s of (c, s1) \<Rightarrow>
          (case create_all (map button_v2 examples_v2) s1 of (btns, s2) \<Rightarrow>
             setTimeout (InsertPanel (c # btns)) 1000
               (link (c # btns) [(1, 0), (2, 0), (3, 0), (4, 0)] s2)))"


text \<open>setupKeyboardShortcuts (lines 406-422) and the listener it registers.\<close>

definition keys_v2 :: "key_event \<Rightarrow> page \<Rightarrow> page" where
  "keys_v2 e s =
     (let s1 =
        (if (metaKey e \<or> ctrlKey e) \<and> key e = ''k''
         then let s0 = preventDefault s
              in (case querySelector sel_textarea s0 of
                    None \<Rightarrow> s0
                  | Some t \<Rightarrow> focus t s0)
         else s)
      in if (metaKey e \<or> ctrlKey e) \<and> key e = ''Enter''
         then let s2 = preventDefault s1
              in (case querySelector sel_send_v2 s2 of
                    None \<Rightarrow> s2
                  | Some b \<Rightarrow> click b s2)
         else s1)"

definition setupKeyboardShortcuts_v2 :: "page \<Rightarrow> page" where
  "setupKeyboardShortcuts_v2 s = s\<lparr>keydown_listeners := keydown_listeners s @ [Keys_v2]\<rparr>"

text \<open>addWelcomeAnimation (lines 427-446).\<close>

definition addWelcomeAnimation_v2 :: "page \<Rightarrow> page" where
  "addWelcomeAnimation_v2 s =
     (case createElement ((blank ''style'')\<lparr>textContent := ''@keyframes slideDown''\<rparr>) s of
        (r, s1) \<Rightarrow> appendToHead r s1)"

text \<open>observeChanges (lines 451-469): the callback, and the subscription.\<close>

definition callback_v2 :: "page \<Rightarrow> page" where
  "callback_v2 s =
     (case querySelector sel_textarea s of
        None \<Rightarrow> s
      | Some t \<Rightarrow>
          if \<not> truthy (placeholderSet (store s t)) then updatePlaceholder_v2 s else s)"

definition observeChanges_v2 :: "page \<Rightarrow> page" where
  "observeChanges_v2 s = s\<lparr>observers := observers s @ [Watch_v2]\<rparr>"

text \<open>
  onReady (lines 287-307) and the body of the script (lines 472-479), which also
  schedules onReady 1000 ms later.
\<close>

definition onReady_v2 :: "page \<Rightarrow> page" where
  "onReady_v2 s =
     observeChanges_v2 (addWelcomeAnimation_v2 (setupKeyboardShortcuts_v2
       (addQuickActions_v2 (focusInput (updatePlaceholder_v2
          (s\<lparr>console := console s @ [''U+2705 EM Spark UI initialized'']\<rparr>))))))"

definition script_v2 :: "page \<Rightarrow> page" where
  "script_v2 s =
     setTimeout OnReady_v2 1000
       (if readyLoading s then s\<lparr>dcl_listeners := dcl_listeners s @ [OnReady_v2]\<rparr>
        else onReady_v2 s)"

section \<open>What the platform runs\<close>

text \<open>
  All work of the script runs in response to an event of the page: a timer that fires,
  a tick of an interval, a batch of mutation records, a key press, a click, the end of
  loading. The platform and the host choose the events, among them the batches that
  insertions of the script itself cause. A timer is named by its position among the
  pending ones, which are kept in the order of their registration, each with its delay.
\<close>

fun run_task :: "task \<Rightarrow> page \<Rightarrow> page" where
  "run_task SetPlaceholder_v1 s = setPlaceholder_v1 s"
| "run_task SetPlaceholder_v2 s = setPlaceholder_v2 s"
| "run_task FocusInput s = focusInput_fire s"
| "run_task AddQuickActions_v1 s = addQuickActions_v1 s"
| "run_task (ClickSend b) s = sendMessage_fire b s"
| "run_task (InsertPanel c) s = insertPanel_v2 c s"
| "run_task OnReady_v1 s = onReady_v1 s"
| "run_task OnReady_v2 s = onReady_v2 s"

text \<open>
  The click listener of the first revision (lines 157-160) reads
  \<^verbatim>\<open>btn.dataset.query\<close> at the click; a missing attribute reads as \<^verbatim>\<open>undefined\<close>,
  which the assignment to \<^verbatim>\<open>value\<close> turns into a string.
\<close>

fun run_click :: "click_handler \<Rightarrow> page \<Rightarrow> page" where
  "run_click (SendQuery btn) s =
     sendMessage_v1 (case data_query (store s btn) of None \<Rightarrow> ''undefined'' | Some q \<Rightarrow> q) s"
| "run_click (FillQuery q) s = fillQuery_v2 q s"

fun run_keys :: "key_handler \<Rightarrow> key_event \<Rightarrow> page \<Rightarrow> page" where
  "run_keys Keys_v1 e s = keys_v1 e s"
| "run_keys Keys_v2 e s = keys_v2 e s"

fun run_observer :: "observer \<Rightarrow> page \<Rightarrow> page" where
  "run_observer Watch_v1 s = callback_v1 s"
| "run_observer Watch_v2 s = callback_v2 s"

text \<open>
  \<open>Click r\<close> is a click event that the platform dispatches with the element \<open>r\<close> as its
  target. A click bubbles: it runs the handlers of its target, then those of the
  target's parent, and so on to the element that has no parent; the way is fixed when
  the event is dispatched. No chain of parents is longer than the number of elements
  created. The script registers no handler for the capturing phase.
\<close>

primrec path :: "nat \<Rightarrow> (ref \<Rightarrow> ref option) \<Rightarrow> ref \<Rightarrow> ref list" where
  "path 0 par r = [r]"
| "path (Suc n) par r = r # (case par r of None \<Rightarrow> [] | Some p \<Rightarrow> path n par p)"

definition handlers_at :: "page \<Rightarrow> ref \<Rightarrow> click_handler list" where
  "handlers_at s r =
     (case onclick (store s r) of None \<Rightarrow> [] | Some h \<Rightarrow> [h])
     @ map snd (filter (\<lambda>p. fst p = r) (click_listeners s))"

definition handlers_of :: "ref \<Rightarrow> page \<Rightarrow> click_handler list" where
  "handlers_of r s = concat (map (handlers_at s) (path (next_ref s) (parent_of s) r))"

datatype event =
    Timeout nat
  | Interval nat
  | Mutation
  | KeyDown key_event
  | Click ref
  | DOMContentLoaded

fun step :: "event \<Rightarrow> page \<Rightarrow> page" where
  "step (Timeout k) s =
     (if k < length (timeouts s)
      then run_task (snd (timeouts s ! k))
             (s\<lparr>timeouts := take k (timeouts s) @ drop (Suc k) (timeouts s)\<rparr>)
      else s)"
| "step (Interval k) s =
     (if k < length (intervals s) then run_task (snd (intervals s ! k)) s else s)"
| "step Mutation s = foldl (\<lambda>x ob. run_observer ob x) s (observers s)"
| "step (KeyDown e) s = foldl (\<lambda>x h. run_keys h e x) s (keydown_listeners s)"
| "step (Click r) s = foldl (\<lambda>x h. run_click h x) s (handlers_of r s)"
| "step DOMContentLoaded s =
     foldl (\<lambda>x t. run_task t x) (s\<lparr>readyLoading := False\<rparr>) (dcl_listeners s)"

text \<open>The events of a page's lifetime, in order.\<close>

definition run :: "event list \<Rightarrow> page \<Rightarrow> page" where
  "run evs s = foldl (\<lambda>x e. step e x) s evs"

subsection \<open>Predicates on pages\<close>

text \<open>Every element of the document was created before the next fresh reference.\<close>

definition wf_page :: "page \<Rightarrow> bool" where
  "wf_page s = (\<forall>r \<in> set (nodes s). r < next_ref s)"

text \<open>
  What the selectors of the script and \<^verbatim>\<open>getElementById\<close> read of an element, and two
  pages whose documents agree on it.
\<close>

definition shape :: "element \<Rightarrow> string \<times> string \<times> string list \<times> string option \<times> string option" where
  "shape e = (tag e, ident e, classes e, testid e, type_attr e)"

definition same_shape :: "page \<Rightarrow> page \<Rightarrow> bool" where
  "same_shape s s' =
     (head_nodes s' = head_nodes s \<and> body_nodes s' = body_nodes s \<and>
      next_ref s' = next_ref s \<and> (\<forall>r. shape (store s' r) = shape (store s r)))"

text \<open>
  A page keeps its document when the elements in it, their order, the properties of
  every element that exists and the focus are as before.
\<close>

definition doc_kept :: "page \<Rightarrow> page \<Rightarrow> bool" where
  "doc_kept s s' =
     (head_nodes s' = head_nodes s \<and> body_nodes s' = body_nodes s \<and>
      (\<forall>r. r < next_ref s \<longrightarrow> store s' r = store s r) \<and> active s' = active s)"



section \<open>Pages to run the script on\<close>

text \<open>
  A page of the host as the selectors of the script expect it: the head; the body with
  the message list (\<^verbatim>\<open>main\<close>) and the composer, and in the composer the input
  field and the send button.
\<close>

definition host_store :: "ref \<Rightarrow> element" where
  "host_store =
     (\<lambda>r. blank ''div'')
       (0 := blank ''head'',
        1 := blank ''body'',
        2 := blank ''main'',
        3 := (blank ''div'')\<lparr>classes := [''cl__composer'']\<rparr>,
        4 := blank ''textarea'',
        5 := (blank ''button'')\<lparr>testid := Some ''send-button''\<rparr>)"

definition host_parents :: "ref \<Rightarrow> ref option" where
  "host_parents = (\<lambda>r. None)(2 := Some 1, 3 := Some 1, 4 := Some 3, 5 := Some 3)"

definition host_page :: page where
  "host_page =
     \<lparr>readyLoading = False, head_nodes = [0], body_nodes = [1, 2, 3, 4, 5],
      store = host_store, parent_of = host_parents, next_ref = 6, active = None,
      selected = None,
      timeouts = [], intervals = [], keydown_listeners = [], dcl_listeners = [],
      observers = [], click_listeners = [], inputs = [], click_calls = [],
      click_events = [], prevented = 0, console = []\<rparr>"

text \<open>The same page before the host has rendered anything into the body.\<close>

definition bare_page :: page where
  "bare_page = host_page\<lparr>body_nodes := [1]\<rparr>"

text \<open>The same page while the host keeps the send button disabled.\<close>

definition disabled_page :: page where
  "disabled_page = upd 5 (\<lambda>e. e\<lparr>disabled := True\<rparr>) host_page"

text \<open>The same page while the host keeps the input field disabled.\<close>

definition disabled_field_page :: page where
  "disabled_field_page = upd 4 (\<lambda>e. e\<lparr>disabled := True\<rparr>) host_page"

text \<open>The same page before the host has rendered the send button.\<close>

definition no_button_page :: page where
  "no_button_page = host_page\<lparr>body_nodes := [1, 2, 3, 4]\<rparr>"

definition ctrl_enter :: key_event where
  "ctrl_enter = \<lparr>metaKey = False, ctrlKey = True, key = ''Enter''\<rparr>"

text \<open>
  The same page after the user has typed into the marked field and the host has put its
  own hint there.
\<close>

definition typed_page :: page where
  "typed_page = upd 4 (\<lambda>e. e\<lparr>val := ''DAM today'', placeholder := ''my own hint'',
                                placeholderSet := Some ''true''\<rparr>) host_page"

text \<open>
  The page without a send button on which \<open>sendMessage\<close> was called, after the host has
  rendered the button during the delay.
\<close>

definition late_button_page :: page where
  "late_button_page =
     (sendMessage_v1 ''GDAM today'' no_button_page)\<lparr>body_nodes := [1, 2, 3, 4, 5]\<rparr>"


text \<open>
  The host page after the script of the first revision has run (the panel is injected at
  once), and after the host has then removed the panel's subtree.
\<close>

definition present_v1 :: page where
  "present_v1 = script_v1 host_page"

definition removed_v1 :: page where
  "removed_v1 = removeSubtree [6..<22] present_v1"

text \<open>
  The host page after the script of the second revision has run and the timers of
  focusInput and of the panel's insertion have fired, and after the host has then
  removed the panel's subtree.
\<close>

definition present_v2 :: page where
  "present_v2 = run [Timeout 0, Timeout 0] (script_v2 host_page)"

definition removed_v2 :: page where
  "removed_v2 = removeSubtree [6..<11] present_v2"


text \<open>The host page, fully parsed, while the document still counts as loading.\<close>

definition loading_host_page :: page where
  "loading_host_page = host_page\<lparr>readyLoading := True\<rparr>"

section \<open>Facts about the platform operations\<close>

lemmas prim_defs = upd_def focus_def blur_def select_def click_def dispatchInput_def
  preventDefault_def setTimeout_def setInterval_def detach_def place_def
  insertAfterBegin_def insertBeforeBegin_def appendToHead_def createElement_def
  set_value_def removeSubtree_def

lemmas tree_defs = set_parent_def link_def

text \<open>Giving an element a parent changes \<open>parent_of\<close> alone.\<close>

lemma set_parent_frame [simp]:
  "readyLoading (set_parent sub p s) = readyLoading s"
  "head_nodes (set_parent sub p s) = head_nodes s"
  "body_nodes (set_parent sub p s) = body_nodes s"
  "store (set_parent sub p s) = store s"
  "next_ref (set_parent sub p s) = next_ref s"
  "active (set_parent sub p s) = active s"
  "selected (set_parent sub p s) = selected s"
  "timeouts (set_parent sub p s) = timeouts s"
  "intervals (set_parent sub p s) = intervals s"
  "keydown_listeners (set_parent sub p s) = keydown_listeners s"
  "dcl_listeners (set_parent sub p s) = dcl_listeners s"
  "observers (set_parent sub p s) = observers s"
  "click_listeners (set_parent sub p s) = click_listeners s"
  "inputs (set_parent sub p s) = inputs s"
  "click_calls (set_parent sub p s) = click_calls s"
  "click_events (set_parent sub p s) = click_events s"
  "prevented (set_parent sub p s) = prevented s"
  "console (set_parent sub p s) = console s"
  by (simp_all add: set_parent_def split: list.splits)

lemma link_frame [simp]:
  "readyLoading (link sub pairs s) = readyLoading s"
  "head_nodes (link sub pairs s) = head_nodes s"
  "body_nodes (link sub pairs s) = body_nodes s"
  "store (link sub pairs s) = store s"
  "next_ref (link sub pairs s) = next_ref s"
  "active (link sub pairs s) = active s"
  "selected (link sub pairs s) = selected s"
  "timeouts (link sub pairs s) = timeouts s"
  "intervals (link sub pairs s) = intervals s"
  "keydown_listeners (link sub pairs s) = keydown_listeners s"
  "dcl_listeners (link sub pairs s) = dcl_listeners s"
  "observers (link sub pairs s) = observers s"
  "click_listeners (link sub pairs s) = click_listeners s"
  "inputs (link sub pairs s) = inputs s"
  "click_calls (link sub pairs s) = click_calls s"
  "click_events (link sub pairs s) = click_events s"
  "prevented (link sub pairs s) = prevented s"
  "console (link sub pairs s) = console s"
  by (simp_all add: link_def)

lemma nodes_tree [simp]:
  "nodes (set_parent sub p s) = nodes s" "nodes (link sub pairs s) = nodes s"
  by (simp_all add: nodes_def)

lemma query_tree [simp]:
  "querySelector P (set_parent sub p s) = querySelector P s"
  "querySelector P (link sub pairs s) = querySelector P s"
  "getElementById i (set_parent sub p s) = getElementById i s"
  "getElementById i (link sub pairs s) = getElementById i s"
  "count_id i (set_parent sub p s) = count_id i s"
  "count_id i (link sub pairs s) = count_id i s"
  "wf_page (set_parent sub p s) = wf_page s"
  "wf_page (link sub pairs s) = wf_page s"
  by (simp_all add: querySelector_def getElementById_def count_id_def wf_page_def)

lemma predicates_tree [simp]:
  "doc_kept s (set_parent sub p s') = doc_kept s s'"
  "doc_kept s (link sub pairs s') = doc_kept s s'"
  "same_shape s (set_parent sub p s') = same_shape s s'"
  "same_shape s (link sub pairs s') = same_shape s s'"
  by (simp_all add: doc_kept_def same_shape_def)

lemma insert_link [simp]:
  "head_nodes (insertAfterBegin a sub (link x y s)) = head_nodes (insertAfterBegin a sub s)"
  "body_nodes (insertAfterBegin a sub (link x y s)) = body_nodes (insertAfterBegin a sub s)"
  "head_nodes (insertBeforeBegin a sub (link x y s)) = head_nodes (insertBeforeBegin a sub s)"
  "body_nodes (insertBeforeBegin a sub (link x y s)) = body_nodes (insertBeforeBegin a sub s)"
  by (simp_all add: insertAfterBegin_def insertBeforeBegin_def place_def detach_def)

lemma create_all_frame:
  "\<exists>f. create_all es s =
     ([next_ref s ..< next_ref s + length es],
      s\<lparr>store := f, next_ref := next_ref s + length es\<rparr>)"
proof (induction es arbitrary: s)
  case Nil
  have "s = s\<lparr>store := store s, next_ref := next_ref s\<rparr>" by simp
  then show ?case by (intro exI [of _ "store s"]) simp
next
  case (Cons e es)
  define s1 where "s1 = s\<lparr>store := (store s)(next_ref s := e), next_ref := Suc (next_ref s)\<rparr>"
  from Cons.IH [of s1] obtain f where
    f: "create_all es s1 =
          ([next_ref s1 ..< next_ref s1 + length es],
           s1\<lparr>store := f, next_ref := next_ref s1 + length es\<rparr>)"
    by blast
  have n: "next_ref s1 = Suc (next_ref s)" by (simp add: s1_def)
  have "create_all (e # es) s =
          (next_ref s # [Suc (next_ref s) ..< Suc (next_ref s) + length es],
           s1\<lparr>store := f, next_ref := Suc (next_ref s) + length es\<rparr>)"
    using f by (simp add: createElement_def s1_def [symmetric] n del: upt_Suc)
  moreover have "[next_ref s ..< next_ref s + length (e # es)] =
        next_ref s # [Suc (next_ref s) ..< Suc (next_ref s) + length es]"
    by (simp add: upt_rec [of "next_ref s"] del: upt_Suc)
  moreover have "s1\<lparr>store := f, next_ref := Suc (next_ref s) + length es\<rparr> =
        s\<lparr>store := f, next_ref := next_ref s + length (e # es)\<rparr>"
    by (simp add: s1_def)
  ultimately show ?case
    by (intro exI [of _ f]) (simp only:)
qed

lemma create_all_fst: "fst (create_all es s) = [next_ref s ..< next_ref s + length es]"
  using create_all_frame [of es s] by auto

lemma create_all_old:
  "r < next_ref s \<Longrightarrow> store (snd (create_all es s)) r = store s r"
proof (induction es arbitrary: s)
  case Nil
  then show ?case by simp
next
  case (Cons e es)
  then show ?case by (simp add: case_prod_beta createElement_def)
qed

lemma create_all_map:
  "map (store (snd (create_all es s))) (fst (create_all es s)) = es"
proof (induction es arbitrary: s)
  case Nil
  then show ?case by simp
next
  case (Cons e es)
  then show ?case by (simp add: case_prod_beta createElement_def create_all_old)
qed

lemma find_store_cong:
  "(\<And>r. r \<in> set xs \<Longrightarrow> P (f r) = P (g r)) \<Longrightarrow>
   find (\<lambda>r. P (f r)) xs = find (\<lambda>r. P (g r)) xs"
  by (induction xs) auto

lemma filter_store_cong:
  "(\<And>r. r \<in> set xs \<Longrightarrow> P (f r) = P (g r)) \<Longrightarrow>
   filter (\<lambda>r. P (f r)) xs = filter (\<lambda>r. P (g r)) xs"
  by (induction xs) auto

lemma count_id_0: "(count_id i s = 0) = (getElementById i s = None)"
  by (auto simp: count_id_def getElementById_def find_None_iff filter_empty_conv)

lemma filter_insert_after:
  "a \<in> set xs \<Longrightarrow>
   length (filter P (insert_after a sub xs)) = length (filter P xs) + length (filter P sub)"
  by (induction xs) auto

lemma filter_insert_before:
  "a \<in> set xs \<Longrightarrow>
   length (filter P (insert_before a sub xs)) = length (filter P xs) + length (filter P sub)"
  by (induction xs) auto

lemma insert_after_absent: "a \<notin> set xs \<Longrightarrow> insert_after a sub xs = xs"
  by (induction xs) auto

lemma insert_before_absent: "a \<notin> set xs \<Longrightarrow> insert_before a sub xs = xs"
  by (induction xs) auto

lemma querySelector_in_nodes: "querySelector P s = Some a \<Longrightarrow> a \<in> set (nodes s)"
  by (auto simp: querySelector_def find_Some_iff)

lemma detach_absent:
  assumes "set sub \<inter> set (nodes s) = {}"
  shows "detach sub s = s"
proof -
  have "filter (\<lambda>r. r \<notin> set sub) (head_nodes s) = head_nodes s"
    and "filter (\<lambda>r. r \<notin> set sub) (body_nodes s) = body_nodes s"
    using assms by (auto simp: nodes_def filter_id_conv)
  then show ?thesis by (simp add: detach_def)
qed

text \<open>Inserting a subtree that is not in the document adds its elements, once.\<close>

lemma count_insertAfterBegin:
  assumes "a \<in> set (nodes s)" and "set sub \<inter> set (nodes s) = {}"
  shows "length (filter P (nodes (insertAfterBegin a sub s))) =
         length (filter P (nodes s)) + length (filter P sub)"
proof -
  have d: "detach sub s = s"
    by (rule detach_absent [OF assms(2)])
  show ?thesis
    using assms(1)
    by (auto simp: insertAfterBegin_def d place_def nodes_def filter_insert_after
                   insert_after_absent)
qed

lemma count_insertBeforeBegin:
  assumes "a \<in> set (nodes s)" and "set sub \<inter> set (nodes s) = {}"
  shows "length (filter P (nodes (insertBeforeBegin a sub s))) =
         length (filter P (nodes s)) + length (filter P sub)"
proof -
  have d: "detach sub s = s"
    by (rule detach_absent [OF assms(2)])
  show ?thesis
    using assms(1)
    by (auto simp: insertBeforeBegin_def d place_def nodes_def filter_insert_before
                   insert_before_absent)
qed


lemma create_all_new:
  assumes "i < length es"
  shows "store (snd (create_all es s)) (next_ref s + i) = es ! i"
proof -
  have "map (store (snd (create_all es s))) [next_ref s ..< next_ref s + length es] ! i = es ! i"
    using create_all_map [of es s] by (simp add: create_all_fst)
  then show ?thesis using assms by simp
qed

lemma create_all_nodes: "nodes (snd (create_all es s)) = nodes s"
  using create_all_frame [of es s] by (auto simp: nodes_def)

lemma create_all_next: "next_ref (snd (create_all es s)) = next_ref s + length es"
  using create_all_frame [of es s] by auto

lemma create_all_query:
  assumes "wf_page s"
  shows "querySelector P (snd (create_all es s)) = querySelector P s"
  unfolding querySelector_def create_all_nodes
  using assms by (intro find_store_cong) (simp add: wf_page_def create_all_old)

lemma length_panel_v1: "length panel_v1 = 16"
  by (simp add: panel_v1_def quick_btn_v1_def)

lemma panel_v1_ids: "length (filter (\<lambda>e. ident e = ''quick-actions'') panel_v1) = 1"
  by (simp add: panel_v1_def quick_btn_v1_def blank_def)

lemma store_insertAfterBegin: "store (insertAfterBegin a sub s) = store s"
  by (simp add: insertAfterBegin_def place_def detach_def)

lemma store_insertBeforeBegin: "store (insertBeforeBegin a sub s) = store s"
  by (simp add: insertBeforeBegin_def place_def detach_def)

lemma addQuickActions_v1_present:
  "getElementById ''quick-actions'' s \<noteq> None \<Longrightarrow> addQuickActions_v1 s = s"
  by (simp add: addQuickActions_v1_def)

lemma addQuickActions_v1_absent:
  assumes "wf_page s" and "getElementById ''quick-actions'' s = None"
    and "querySelector sel_messages_v1 s = Some m"
  shows "addQuickActions_v1 s =
     (let container = fst (create_all panel_v1 s);
          s2 = insertAfterBegin m container
                 (link container panel_nesting_v1 (snd (create_all panel_v1 s)))
      in s2\<lparr>click_listeners := click_listeners s2 @
            map (\<lambda>b. (b, SendQuery b))
              (filter (\<lambda>r. sel_quick_btn (store s2 r)) (tl container))\<rparr>)"
  using assms
  by (simp add: addQuickActions_v1_def case_prod_beta create_all_query Let_def)

lemma addQuickActions_v1_count:
  assumes "wf_page s" and "getElementById ''quick-actions'' s = None"
    and "querySelector sel_messages_v1 s = Some m"
  shows "count_id ''quick-actions'' (addQuickActions_v1 s) = 1"
proof -
  define container where "container = fst (create_all panel_v1 s)"
  define s1 where "s1 = snd (create_all panel_v1 s)"
  define P where "P = (\<lambda>r. ident (store s1 r) = ''quick-actions'')"
  have c: "container = [next_ref s ..< next_ref s + 16]"
    by (simp add: container_def create_all_fst length_panel_v1)
  have m: "m \<in> set (nodes s1)"
    using assms(3) by (simp add: s1_def create_all_nodes querySelector_in_nodes)
  have fresh: "set container \<inter> set (nodes s1) = {}"
    using assms(1) by (auto simp: c s1_def create_all_nodes wf_page_def)
  have old: "filter P (nodes s1) = []"
  proof -
    have "filter P (nodes s1) = filter (\<lambda>r. ident (store s r) = ''quick-actions'') (nodes s)"
      unfolding P_def s1_def create_all_nodes
      using assms(1) by (intro filter_store_cong) (simp add: wf_page_def create_all_old)
    also have "\<dots> = []"
      using assms(2) count_id_0 [of "''quick-actions''" s] by (simp add: count_id_def)
    finally show ?thesis .
  qed
  have new: "length (filter P container) = 1"
  proof -
    have "length (filter P container) =
          length (filter (\<lambda>e. ident e = ''quick-actions'') (map (store s1) container))"
      by (simp add: P_def filter_map comp_def)
    also have "map (store s1) container = panel_v1"
      by (simp add: s1_def container_def create_all_map)
    finally show ?thesis by (simp add: panel_v1_ids)
  qed
  have n: "nodes ((insertAfterBegin m container (link container panel_nesting_v1 s1))
                   \<lparr>click_listeners := l\<rparr>) =
           nodes (insertAfterBegin m container s1)" for l
    by (simp add: insertAfterBegin_def place_def detach_def nodes_def)
  have "count_id ''quick-actions'' (addQuickActions_v1 s) =
        length (filter P (nodes (insertAfterBegin m container s1)))"
    unfolding addQuickActions_v1_absent [OF assms] Let_def count_id_def
      container_def [symmetric] s1_def [symmetric] n
    by (simp add: store_insertAfterBegin P_def)
  also have "\<dots> = length (filter P (nodes s1)) + length (filter P container)"
    by (rule count_insertAfterBegin [OF m fresh])
  finally show ?thesis by (simp add: old new)
qed

lemmas page_defs = host_page_def host_store_def host_parents_def bare_page_def disabled_page_def
  no_button_page_def ctrl_enter_def blank_def

lemmas query_defs = querySelector_def getElementById_def count_id_def nodes_def
  sel_textarea_def sel_send_v1_def sel_send_v2_def sel_messages_v1_def sel_composer_v2_def
  sel_quick_btn_def truthy_def

section \<open>The placeholder\<close>

lemma setPlaceholder_v1_marked:
  assumes "querySelector sel_textarea s = Some t" and "truthy (placeholderSet (store s t))"
  shows "setPlaceholder_v1 s = s"
  using assms by (simp add: setPlaceholder_v1_def)

lemma setPlaceholder_v2_marked:
  assumes "querySelector sel_textarea s = Some t" and "truthy (placeholderSet (store s t))"
  shows "setPlaceholder_v2 s = s"
  using assms by (simp add: setPlaceholder_v2_def)

lemma updatePlaceholder_v1_pow:
  assumes "querySelector sel_textarea s = Some t" and "truthy (placeholderSet (store s t))"
  shows "(updatePlaceholder_v1 ^^ n) s =
         s\<lparr>intervals := intervals s @ replicate n (1000, SetPlaceholder_v1)\<rparr>"
proof (induction n)
  case 0
  show ?case by simp
next
  case (Suc n)
  let ?s = "s\<lparr>intervals := intervals s @ replicate n (1000, SetPlaceholder_v1)\<rparr>"
  have q: "querySelector sel_textarea ?s = Some t"
    using assms(1) by (simp add: querySelector_def nodes_def)
  have m: "truthy (placeholderSet (store ?s t))"
    using assms(2) by simp
  have "(updatePlaceholder_v1 ^^ Suc n) s = updatePlaceholder_v1 ?s"
    by (simp add: Suc.IH)
  also have "\<dots> = s\<lparr>intervals := intervals s @ replicate (Suc n) (1000, SetPlaceholder_v1)\<rparr>"
    by (simp add: updatePlaceholder_v1_def setPlaceholder_v1_marked [OF q m]
                  setInterval_def replicate_append_same)
  finally show ?case .
qed

lemma updatePlaceholder_v2_pow:
  assumes "querySelector sel_textarea s = Some t" and "truthy (placeholderSet (store s t))"
  shows "(updatePlaceholder_v2 ^^ n) s =
         s\<lparr>intervals := intervals s @ replicate n (1000, SetPlaceholder_v2)\<rparr>"
proof (induction n)
  case 0
  show ?case by simp
next
  case (Suc n)
  let ?s = "s\<lparr>intervals := intervals s @ replicate n (1000, SetPlaceholder_v2)\<rparr>"
  have q: "querySelector sel_textarea ?s = Some t"
    using assms(1) by (simp add: querySelector_def nodes_def)
  have m: "truthy (placeholderSet (store ?s t))"
    using assms(2) by simp
  have "(updatePlaceholder_v2 ^^ Suc n) s = updatePlaceholder_v2 ?s"
    by (simp add: Suc.IH)
  also have "\<dots> = s\<lparr>intervals := intervals s @ replicate (Suc n) (1000, SetPlaceholder_v2)\<rparr>"
    by (simp add: updatePlaceholder_v2_def setPlaceholder_v2_marked [OF q m]
                  setInterval_def replicate_append_same)
  finally show ?case .
qed

text \<open>
  C6. Once the first \<^verbatim>\<open>textarea\<close> of the document carries a truthy
  \<open>placeholderSet\<close>, any number \<open>n\<close> of calls of updatePlaceholder leaves its value and
  its placeholder as they are, whatever they are (the store is unchanged as a whole), and
  so does a tick of the interval the calls registered: \<open>setPlaceholder\<close> reads the marker
  only. Both revisions.
\<close>

theorem C6_placeholder_kept:
  assumes "querySelector sel_textarea s = Some t" and "truthy (placeholderSet (store s t))"
  shows "val (store ((updatePlaceholder_v1 ^^ n) s) t) = val (store s t) \<and>
         placeholder (store ((updatePlaceholder_v1 ^^ n) s) t) = placeholder (store s t) \<and>
         store ((updatePlaceholder_v1 ^^ n) s) = store s \<and>
         run_task SetPlaceholder_v1 ((updatePlaceholder_v1 ^^ n) s) = (updatePlaceholder_v1 ^^ n) s \<and>
         val (store ((updatePlaceholder_v2 ^^ n) s) t) = val (store s t) \<and>
         placeholder (store ((updatePlaceholder_v2 ^^ n) s) t) = placeholder (store s t) \<and>
         store ((updatePlaceholder_v2 ^^ n) s) = store s \<and>
         run_task SetPlaceholder_v2 ((updatePlaceholder_v2 ^^ n) s) = (updatePlaceholder_v2 ^^ n) s"
proof -
  let ?s1 = "s\<lparr>intervals := intervals s @ replicate n (1000, SetPlaceholder_v1)\<rparr>"
  let ?s2 = "s\<lparr>intervals := intervals s @ replicate n (1000, SetPlaceholder_v2)\<rparr>"
  have q1: "querySelector sel_textarea ?s1 = Some t" and q2: "querySelector sel_textarea ?s2 = Some t"
    using assms(1) by (simp_all add: querySelector_def nodes_def)
  have m1: "truthy (placeholderSet (store ?s1 t))" and m2: "truthy (placeholderSet (store ?s2 t))"
    using assms(2) by simp_all
  show ?thesis
    by (simp add: updatePlaceholder_v1_pow [OF assms] updatePlaceholder_v2_pow [OF assms]
                  setPlaceholder_v1_marked [OF q1 m1] setPlaceholder_v2_marked [OF q2 m2])
qed

theorem C6_placeholder_kept_witness:
  "querySelector sel_textarea typed_page = Some 4 \<and>
   truthy (placeholderSet (store typed_page 4)) \<and>
   val (store ((updatePlaceholder_v1 ^^ 3) typed_page) 4) = ''DAM today'' \<and>
   placeholder (store ((updatePlaceholder_v1 ^^ 3) typed_page) 4) = ''my own hint''"
proof -
  have q: "querySelector sel_textarea typed_page = Some 4"
    by (simp add: typed_page_def upd_def query_defs page_defs)
  have m: "truthy (placeholderSet (store typed_page 4))"
    by (simp add: typed_page_def upd_def truthy_def)
  have v: "val (store typed_page 4) = ''DAM today''"
    and p: "placeholder (store typed_page 4) = ''my own hint''"
    by (simp_all add: typed_page_def upd_def)
  show ?thesis
    using q m v p C6_placeholder_kept [OF q m, of 3] by simp
qed

section \<open>The message dispatcher\<close>

lemma nodes_upd: "nodes (upd r f s) = nodes s"
  by (simp add: nodes_def upd_def)

lemma querySelector_upd:
  assumes "\<And>e. P (f e) = P e"
  shows "querySelector P (upd r f s) = querySelector P s"
  unfolding querySelector_def nodes_upd
  by (intro find_store_cong) (simp add: upd_def assms)

lemma sendMessage_v1_absent:
  "querySelector sel_textarea s = None \<Longrightarrow> sendMessage_v1 txt s = s"
  by (simp add: sendMessage_v1_def)

lemma sendMessage_v1_present:
  "querySelector sel_textarea s = Some t \<Longrightarrow>
   sendMessage_v1 txt s =
     setTimeout (ClickSend (querySelector sel_send_v1 s)) 100
       (focus t (dispatchInput t True (set_value t txt s)))"
  by (simp add: sendMessage_v1_def)

lemma crlf_no_cr: "CHR 0x0D \<notin> set v \<Longrightarrow> crlf False v = v"
  by (induction v) auto

lemma normalize_newlines_no_cr: "CHR 0x0D \<notin> set v \<Longrightarrow> normalize_newlines v = v"
  by (simp add: normalize_newlines_def crlf_no_cr)

text \<open>
  C4, as the code and the platform have it. For every string \<open>txt\<close>: when
  \<open>sendMessage(txt)\<close> is called with the input field \<open>t\<close> and the submit control \<open>b\<close> in
  the document, the field's value is \<open>txt\<close> with its line breaks normalised (\<open>txt\<close>
  itself when it has no carriage return), exactly one input event, bubbling, has been
  dispatched on the field, the field has the focus unless it is disabled (then the
  focus is where it was), nothing has been clicked yet and one 100 ms timer is pending;
  when that timer fires while \<open>b\<close> is not disabled (in whatever page \<open>s2\<close> the host has
  made of it), \<open>b\<close> is clicked exactly once. With the control enabled at the call and
  nothing in between, the timer's firing is that one click.
\<close>

theorem C4_dispatcher_contract:
  assumes "querySelector sel_textarea s = Some t"
    and "querySelector sel_send_v1 s = Some b"
    and "\<not> disabled (store s b)"
  shows "val (store (sendMessage_v1 txt s) t) = normalize_newlines txt \<and>
         (CHR 0x0D \<notin> set txt \<longrightarrow> val (store (sendMessage_v1 txt s) t) = txt) \<and>
         inputs (sendMessage_v1 txt s) = inputs s @ [(t, True)] \<and>
         active (sendMessage_v1 txt s) = (if disabled (store s t) then active s else Some t) \<and>
         click_calls (sendMessage_v1 txt s) = click_calls s \<and>
         timeouts (sendMessage_v1 txt s) = timeouts s @ [(100, ClickSend (Some b))] \<and>
         (\<forall>s2. \<not> disabled (store s2 b) \<longrightarrow>
            click_calls (run_task (ClickSend (Some b)) s2) = click_calls s2 @ [b] \<and>
            click_events (run_task (ClickSend (Some b)) s2) = click_events s2 @ [b]) \<and>
         click_calls (step (Timeout (length (timeouts s))) (sendMessage_v1 txt s)) =
           click_calls s @ [b] \<and>
         click_events (step (Timeout (length (timeouts s))) (sendMessage_v1 txt s)) =
           click_events s @ [b] \<and>
         timeouts (step (Timeout (length (timeouts s))) (sendMessage_v1 txt s)) = timeouts s"
  using assms
  by (auto simp: sendMessage_v1_present sendMessage_fire_def prim_defs
                 normalize_newlines_no_cr)

theorem C4_dispatcher_contract_witness:
  "querySelector sel_textarea host_page = Some 4 \<and>
   querySelector sel_send_v1 host_page = Some 5 \<and>
   \<not> disabled (store host_page 5) \<and>
   CHR 0x0D \<notin> set ''RTM rate for last hour'' \<and>
   val (store (sendMessage_v1 ''RTM rate for last hour'' host_page) 4) = ''RTM rate for last hour'' \<and>
   inputs (sendMessage_v1 ''RTM rate for last hour'' host_page) = [(4, True)] \<and>
   active (sendMessage_v1 ''RTM rate for last hour'' host_page) = Some 4 \<and>
   timeouts (sendMessage_v1 ''RTM rate for last hour'' host_page) = [(100, ClickSend (Some 5))] \<and>
   click_calls (step (Timeout 0) (sendMessage_v1 ''RTM rate for last hour'' host_page)) = [5]"
proof -
  have t: "querySelector sel_textarea host_page = Some 4"
    and b: "querySelector sel_send_v1 host_page = Some 5"
    and d: "\<not> disabled (store host_page 5)"
    by (simp_all add: query_defs page_defs)
  have e: "inputs host_page = []" "timeouts host_page = []" "click_calls host_page = []"
    "\<not> disabled (store host_page 4)"
    by (simp_all add: page_defs)
  have c: "CHR 0x0D \<notin> set ''RTM rate for last hour''"
    by simp
  show ?thesis
    using t b d c C4_dispatcher_contract [OF t b d, of "''RTM rate for last hour''"]
    by (simp add: e normalize_newlines_def del: step.simps)
qed

text \<open>
  C4 as stated fails twice. A text with a carriage return is not the value the field
  has afterwards; and a disabled input field does not get the focus.
\<close>

theorem C4_counterexample:
  "querySelector sel_textarea host_page = Some 4 \<and>
   querySelector sel_send_v1 host_page = Some 5 \<and>
   \<not> disabled (store host_page 5) \<and>
   val (store (sendMessage_v1 [CHR ''a'', CHR 0x0D, CHR ''b''] host_page) 4) =
     [CHR ''a'', CHR 0x0A, CHR ''b''] \<and>
   val (store (sendMessage_v1 [CHR ''a'', CHR 0x0D, CHR ''b''] host_page) 4) \<noteq>
     [CHR ''a'', CHR 0x0D, CHR ''b''] \<and>
   querySelector sel_textarea disabled_field_page = Some 4 \<and>
   querySelector sel_send_v1 disabled_field_page = Some 5 \<and>
   \<not> disabled (store disabled_field_page 5) \<and>
   active (sendMessage_v1 ''DAM yesterday'' disabled_field_page) = None"
  by (simp add: sendMessage_v1_def disabled_field_page_def prim_defs query_defs page_defs
                normalize_newlines_def)

text \<open>
  C5, as the code has it. \<open>sendMessage\<close> resolves the submit control when it is called
  (line 227) and hands the result to the timer: the timer clicks that element if there
  was one and it is not disabled when the timer fires, and does nothing if there was
  none, whatever the document holds by then.
\<close>

theorem C5_submit_resolved_at_call:
  assumes "querySelector sel_textarea s = Some t"
  shows "timeouts (sendMessage_v1 txt s) =
           timeouts s @ [(100, ClickSend (querySelector sel_send_v1 s))] \<and>
         run_task (ClickSend None) s2 = s2 \<and>
         run_task (ClickSend (Some b)) s2 = (if disabled (store s2 b) then s2 else click b s2)"
  using assms
  by (simp add: sendMessage_v1_present sendMessage_fire_def prim_defs)

theorem C5_submit_resolved_at_call_witness:
  "querySelector sel_textarea no_button_page = Some 4 \<and>
   querySelector sel_send_v1 no_button_page = None \<and>
   timeouts (sendMessage_v1 ''GDAM today'' no_button_page) = [(100, ClickSend None)] \<and>
   run_task (ClickSend None) late_button_page = late_button_page"
proof -
  have t: "querySelector sel_textarea no_button_page = Some 4"
    and b: "querySelector sel_send_v1 no_button_page = None"
    by (simp_all add: query_defs page_defs)
  have e: "timeouts no_button_page = []"
    by (simp add: page_defs)
  show ?thesis
    using t b C5_submit_resolved_at_call [OF t, of "''GDAM today''" late_button_page]
    by (simp add: e del: run_task.simps)
qed

text \<open>
  C5 as stated fails: no submit control when \<open>sendMessage\<close> is called, an enabled one in
  the document when the 100 ms timer fires, and nothing is clicked.
\<close>

theorem C5_counterexample:
  "querySelector sel_send_v1 no_button_page = None \<and>
   querySelector sel_send_v1 late_button_page = Some 5 \<and>
   \<not> disabled (store late_button_page 5) \<and>
   val (store late_button_page 4) = ''GDAM today'' \<and>
   timeouts late_button_page = [(100, ClickSend None)] \<and>
   click_calls (step (Timeout 0) late_button_page) = [] \<and>
   timeouts (step (Timeout 0) late_button_page) = []"
  by (simp add: late_button_page_def sendMessage_v1_def sendMessage_fire_def prim_defs
                query_defs page_defs normalize_newlines_def)

section \<open>The submit shortcut\<close>

text \<open>
  C8, as the code has it. On the modifier with Enter the listener of the second revision
  resolves \<^verbatim>\<open>[data-testid="send-button"]\<close> and calls \<^verbatim>\<open>click()\<close> on it whenever it
  is in the document; it does not read \<open>disabled\<close>. The platform drops the call on a
  disabled control, so the click event is dispatched only when the control is not
  disabled.
\<close>

theorem C8_submit_shortcut:
  assumes "metaKey e \<or> ctrlKey e" and "key e = ''Enter''"
  shows "click_calls (keys_v2 e s) =
           click_calls s @ (case querySelector sel_send_v2 s of None \<Rightarrow> [] | Some b \<Rightarrow> [b]) \<and>
         click_events (keys_v2 e s) =
           click_events s @ (case querySelector sel_send_v2 s of
                               None \<Rightarrow> []
                             | Some b \<Rightarrow> if disabled (store s b) then [] else [b])"
proof -
  have q: "querySelector sel_send_v2 (preventDefault s) = querySelector sel_send_v2 s"
    by (simp add: querySelector_def nodes_def preventDefault_def)
  show ?thesis
    using assms
    by (cases "querySelector sel_send_v2 s") (simp_all add: keys_v2_def q, simp_all add: prim_defs)
qed

theorem C8_submit_shortcut_witness:
  "(metaKey ctrl_enter \<or> ctrlKey ctrl_enter) \<and> key ctrl_enter = ''Enter'' \<and>
   click_calls (keys_v2 ctrl_enter host_page) = [5] \<and>
   click_events (keys_v2 ctrl_enter host_page) = [5] \<and>
   click_calls (keys_v2 ctrl_enter no_button_page) = [] \<and>
   click_events (keys_v2 ctrl_enter disabled_page) = []"
proof -
  have k: "metaKey ctrl_enter \<or> ctrlKey ctrl_enter" and k': "key ctrl_enter = ''Enter''"
    by (simp_all add: ctrl_enter_def)
  have q: "querySelector sel_send_v2 host_page = Some 5"
    "querySelector sel_send_v2 no_button_page = None"
    "querySelector sel_send_v2 disabled_page = Some 5"
    by (simp_all add: query_defs page_defs upd_def)
  have e: "click_calls host_page = []" "click_events host_page = []"
    "click_calls no_button_page = []" "click_events disabled_page = []"
    "\<not> disabled (store host_page 5)" "disabled (store disabled_page 5)"
    by (simp_all add: page_defs upd_def)
  show ?thesis
    using k k' C8_submit_shortcut [OF k k', of host_page]
      C8_submit_shortcut [OF k k', of no_button_page]
      C8_submit_shortcut [OF k k', of disabled_page]
    by (simp add: q e)
qed

text \<open>
  C8 as stated fails: with the send button disabled, the listener still invokes it, once.
\<close>

theorem C8_counterexample:
  "querySelector sel_send_v2 disabled_page = Some 5 \<and>
   disabled (store disabled_page 5) \<and>
   click_calls disabled_page = [] \<and>
   click_calls (step (KeyDown ctrl_enter) (setupKeyboardShortcuts_v2 disabled_page)) = [5]"
  by (simp add: setupKeyboardShortcuts_v2_def keys_v2_def prim_defs query_defs page_defs)

section \<open>What the script registers with the platform\<close>

text \<open>
  The registrations each function of the script makes: interval timers, timeouts,
  keydown listeners and mutation observers.
\<close>

lemma create_all_regs:
  "intervals (snd (create_all es s)) = intervals s"
  "timeouts (snd (create_all es s)) = timeouts s"
  "observers (snd (create_all es s)) = observers s"
  "keydown_listeners (snd (create_all es s)) = keydown_listeners s"
  using create_all_frame [of es s] by auto

lemma setPlaceholder_v1_regs:
  "intervals (setPlaceholder_v1 s) = intervals s"
  "timeouts (setPlaceholder_v1 s) = timeouts s"
  "observers (setPlaceholder_v1 s) = observers s"
  "keydown_listeners (setPlaceholder_v1 s) = keydown_listeners s"
  by (simp_all add: setPlaceholder_v1_def upd_def split: option.splits)

lemma setPlaceholder_v2_regs:
  "intervals (setPlaceholder_v2 s) = intervals s"
  "timeouts (setPlaceholder_v2 s) = timeouts s"
  "observers (setPlaceholder_v2 s) = observers s"
  "keydown_listeners (setPlaceholder_v2 s) = keydown_listeners s"
  by (simp_all add: setPlaceholder_v2_def upd_def split: option.splits)

lemma updatePlaceholder_v1_regs:
  "intervals (updatePlaceholder_v1 s) = intervals s @ [(1000, SetPlaceholder_v1)]"
  "timeouts (updatePlaceholder_v1 s) = timeouts s"
  "observers (updatePlaceholder_v1 s) = observers s"
  "keydown_listeners (updatePlaceholder_v1 s) = keydown_listeners s"
  by (simp_all add: updatePlaceholder_v1_def setInterval_def setPlaceholder_v1_regs)

lemma updatePlaceholder_v2_regs:
  "intervals (updatePlaceholder_v2 s) = intervals s @ [(1000, SetPlaceholder_v2)]"
  "timeouts (updatePlaceholder_v2 s) = timeouts s"
  "observers (updatePlaceholder_v2 s) = observers s"
  "keydown_listeners (updatePlaceholder_v2 s) = keydown_listeners s"
  by (simp_all add: updatePlaceholder_v2_def setInterval_def setPlaceholder_v2_regs)

lemma focusInput_regs:
  "intervals (focusInput s) = intervals s"
  "timeouts (focusInput s) = timeouts s @ [(500, FocusInput)]"
  "observers (focusInput s) = observers s"
  "keydown_listeners (focusInput s) = keydown_listeners s"
  "intervals (focusInput_fire s) = intervals s"
  "timeouts (focusInput_fire s) = timeouts s"
  "observers (focusInput_fire s) = observers s"
  "keydown_listeners (focusInput_fire s) = keydown_listeners s"
  by (simp_all add: focusInput_def focusInput_fire_def setTimeout_def focus_def split: option.splits)

lemma addQuickActions_v1_regs:
  "intervals (addQuickActions_v1 s) = intervals s"
  "timeouts (addQuickActions_v1 s) = timeouts s"
  "observers (addQuickActions_v1 s) = observers s"
  "keydown_listeners (addQuickActions_v1 s) = keydown_listeners s"
  by (simp_all add: addQuickActions_v1_def case_prod_beta Let_def create_all_regs
                    insertAfterBegin_def place_def detach_def split: option.splits)

lemma insertPanel_v2_regs:
  "intervals (insertPanel_v2 c s) = intervals s"
  "timeouts (insertPanel_v2 c s) = timeouts s"
  "observers (insertPanel_v2 c s) = observers s"
  "keydown_listeners (insertPanel_v2 c s) = keydown_listeners s"
  by (simp_all add: insertPanel_v2_def insertBeforeBegin_def place_def detach_def
               split: option.splits)

lemma addQuickActions_v2_regs:
  "intervals (addQuickActions_v2 s) = intervals s"
  "prefix (timeouts s) (timeouts (addQuickActions_v2 s))"
  "observers (addQuickActions_v2 s) = observers s"
  "keydown_listeners (addQuickActions_v2 s) = keydown_listeners s"
  by (simp_all add: addQuickActions_v2_def case_prod_beta create_all_regs createElement_def
                    setTimeout_def)

lemma sendMessage_v1_regs:
  "intervals (sendMessage_v1 txt s) = intervals s"
  "observers (sendMessage_v1 txt s) = observers s"
  "keydown_listeners (sendMessage_v1 txt s) = keydown_listeners s"
  "intervals (sendMessage_fire b s) = intervals s"
  "timeouts (sendMessage_fire b s) = timeouts s"
  "observers (sendMessage_fire b s) = observers s"
  "keydown_listeners (sendMessage_fire b s) = keydown_listeners s"
  by (simp_all add: sendMessage_v1_def sendMessage_fire_def Let_def prim_defs split: option.splits)

lemma fillQuery_v2_regs:
  "intervals (fillQuery_v2 q s) = intervals s"
  "timeouts (fillQuery_v2 q s) = timeouts s"
  "observers (fillQuery_v2 q s) = observers s"
  "keydown_listeners (fillQuery_v2 q s) = keydown_listeners s"
  "click_calls (fillQuery_v2 q s) = click_calls s"
  "click_events (fillQuery_v2 q s) = click_events s"
  by (simp_all add: fillQuery_v2_def prim_defs split: option.splits)

lemma keys_regs:
  "intervals (keys_v1 e s) = intervals s"
  "timeouts (keys_v1 e s) = timeouts s"
  "observers (keys_v1 e s) = observers s"
  "keydown_listeners (keys_v1 e s) = keydown_listeners s"
  "intervals (keys_v2 e s) = intervals s"
  "timeouts (keys_v2 e s) = timeouts s"
  "observers (keys_v2 e s) = observers s"
  "keydown_listeners (keys_v2 e s) = keydown_listeners s"
  by (simp_all add: keys_v1_def keys_v2_def Let_def prim_defs split: option.splits)

lemma setup_regs:
  "intervals (setupKeyboardShortcuts_v1 s) = intervals s"
  "timeouts (setupKeyboardShortcuts_v1 s) = timeouts s"
  "observers (setupKeyboardShortcuts_v1 s) = observers s"
  "keydown_listeners (setupKeyboardShortcuts_v1 s) = keydown_listeners s @ [Keys_v1]"
  "intervals (setupKeyboardShortcuts_v2 s) = intervals s"
  "timeouts (setupKeyboardShortcuts_v2 s) = timeouts s"
  "observers (setupKeyboardShortcuts_v2 s) = observers s"
  "keydown_listeners (setupKeyboardShortcuts_v2 s) = keydown_listeners s @ [Keys_v2]"
  by (simp_all add: setupKeyboardShortcuts_v1_def setupKeyboardShortcuts_v2_def)

lemma addWelcomeAnimation_regs:
  "intervals (addWelcomeAnimation_v1 s) = intervals s"
  "timeouts (addWelcomeAnimation_v1 s) = timeouts s"
  "observers (addWelcomeAnimation_v1 s) = observers s"
  "keydown_listeners (addWelcomeAnimation_v1 s) = keydown_listeners s"
  "intervals (addWelcomeAnimation_v2 s) = intervals s"
  "timeouts (addWelcomeAnimation_v2 s) = timeouts s"
  "observers (addWelcomeAnimation_v2 s) = observers s"
  "keydown_listeners (addWelcomeAnimation_v2 s) = keydown_listeners s"
  by (simp_all add: addWelcomeAnimation_v1_def addWelcomeAnimation_v2_def prim_defs Let_def)

lemma observeChanges_regs:
  "intervals (observeChanges_v1 s) = intervals s"
  "timeouts (observeChanges_v1 s) = timeouts s"
  "observers (observeChanges_v1 s) = observers s @ [Watch_v1]"
  "keydown_listeners (observeChanges_v1 s) = keydown_listeners s"
  "intervals (observeChanges_v2 s) = intervals s"
  "timeouts (observeChanges_v2 s) = timeouts s"
  "observers (observeChanges_v2 s) = observers s @ [Watch_v2]"
  "keydown_listeners (observeChanges_v2 s) = keydown_listeners s"
  by (simp_all add: observeChanges_v1_def observeChanges_v2_def)

lemma callback_v1_regs:
  "intervals (callback_v1 s) = intervals s @ [(1000, SetPlaceholder_v1)]"
  "prefix (timeouts s) (timeouts (callback_v1 s))"
  "observers (callback_v1 s) = observers s"
  "keydown_listeners (callback_v1 s) = keydown_listeners s"
  by (simp_all add: callback_v1_def Let_def setTimeout_def updatePlaceholder_v1_regs)

lemma callback_v2_regs:
  "prefix (intervals s) (intervals (callback_v2 s))"
  "timeouts (callback_v2 s) = timeouts s"
  "observers (callback_v2 s) = observers s"
  "keydown_listeners (callback_v2 s) = keydown_listeners s"
  by (simp_all add: callback_v2_def updatePlaceholder_v2_regs split: option.splits)

lemma onReady_v1_regs:
  "intervals (onReady_v1 s) = intervals s @ [(1000, SetPlaceholder_v1)]"
  "timeouts (onReady_v1 s) = timeouts s @ [(500, FocusInput)]"
  "observers (onReady_v1 s) = observers s @ [Watch_v1]"
  "keydown_listeners (onReady_v1 s) = keydown_listeners s @ [Keys_v1]"
  by (simp_all add: onReady_v1_def observeChanges_regs addWelcomeAnimation_regs setup_regs
                    addQuickActions_v1_regs focusInput_regs updatePlaceholder_v1_regs)

lemma onReady_v2_regs:
  "intervals (onReady_v2 s) = intervals s @ [(1000, SetPlaceholder_v2)]"
  "prefix (timeouts s) (timeouts (onReady_v2 s))"
  "observers (onReady_v2 s) = observers s @ [Watch_v2]"
  "keydown_listeners (onReady_v2 s) = keydown_listeners s @ [Keys_v2]"
proof -
  let ?s = "focusInput (updatePlaceholder_v2
              (s\<lparr>console := console s @ [''U+2705 EM Spark UI initialized'']\<rparr>))"
  have "prefix (timeouts ?s) (timeouts (addQuickActions_v2 ?s))"
    by (rule addQuickActions_v2_regs)
  then show "prefix (timeouts s) (timeouts (onReady_v2 s))"
    by (auto simp: onReady_v2_def observeChanges_regs addWelcomeAnimation_regs setup_regs
                   focusInput_regs updatePlaceholder_v2_regs prefix_def)
qed (simp_all add: onReady_v2_def observeChanges_regs addWelcomeAnimation_regs setup_regs
                   addQuickActions_v2_regs focusInput_regs updatePlaceholder_v2_regs)


lemma run_task_regs:
  "prefix (intervals s) (intervals (run_task t s))"
  "prefix (observers s) (observers (run_task t s))"
  by (cases t; simp add: setPlaceholder_v1_regs setPlaceholder_v2_regs focusInput_regs
        addQuickActions_v1_regs sendMessage_v1_regs insertPanel_v2_regs onReady_v1_regs
        onReady_v2_regs)+

lemma run_click_regs:
  "intervals (run_click h s) = intervals s"
  "observers (run_click h s) = observers s"
  by (cases h; simp add: sendMessage_v1_regs fillQuery_v2_regs)+

lemma run_keys_regs:
  "intervals (run_keys h e s) = intervals s"
  "observers (run_keys h e s) = observers s"
  by (cases h; simp add: keys_regs)+

lemma run_observer_regs:
  "prefix (intervals s) (intervals (run_observer ob s))"
  "observers (run_observer ob s) = observers s"
  by (cases ob; simp add: callback_v1_regs callback_v2_regs)+

lemma foldl_prefix:
  assumes "\<And>x y. prefix (g y) (g (f y x))"
  shows "prefix (g s) (g (foldl f s xs))"
proof (induction xs arbitrary: s)
  case Nil
  show ?case by simp
next
  case (Cons x xs)
  have "prefix (g s) (g (f s x))" by (rule assms)
  also have "prefix (g (f s x)) (g (foldl f (f s x) xs))" by (rule Cons.IH)
  finally show ?case by simp
qed

lemma foldl_same:
  assumes "\<And>x y. g (f y x) = g y"
  shows "g (foldl f s xs) = g s"
  by (induction xs arbitrary: s) (simp_all add: assms)

text \<open>No event of the page takes an interval timer or an observer away.\<close>

lemma step_intervals: "prefix (intervals s) (intervals (step e s))"
proof (cases e)
  case (Timeout k)
  let ?s = "s\<lparr>timeouts := take k (timeouts s) @ drop (Suc k) (timeouts s)\<rparr>"
  have "prefix (intervals ?s) (intervals (run_task (snd (timeouts s ! k)) ?s))"
    by (rule run_task_regs)
  then show ?thesis using Timeout by simp
next
  case (Interval k)
  then show ?thesis by (simp add: run_task_regs)
next
  case Mutation
  then show ?thesis
    by (simp add: foldl_prefix [where g = intervals] run_observer_regs)
next
  case (KeyDown ev)
  then show ?thesis by (simp add: foldl_same [where g = intervals] run_keys_regs)
next
  case (Click r)
  then show ?thesis by (simp add: foldl_same [where g = intervals] run_click_regs)
next
  case DOMContentLoaded
  have "prefix (intervals (s\<lparr>readyLoading := False\<rparr>))
          (intervals (foldl (\<lambda>x t. run_task t x) (s\<lparr>readyLoading := False\<rparr>) (dcl_listeners s)))"
    by (rule foldl_prefix [where g = intervals]) (rule run_task_regs)
  then show ?thesis using DOMContentLoaded by simp
qed

lemma step_observers: "prefix (observers s) (observers (step e s))"
proof (cases e)
  case (Timeout k)
  let ?s = "s\<lparr>timeouts := take k (timeouts s) @ drop (Suc k) (timeouts s)\<rparr>"
  have "prefix (observers ?s) (observers (run_task (snd (timeouts s ! k)) ?s))"
    by (rule run_task_regs)
  then show ?thesis using Timeout by simp
next
  case (Interval k)
  then show ?thesis by (simp add: run_task_regs)
next
  case Mutation
  then show ?thesis
    by (simp add: foldl_same [where g = observers] run_observer_regs)
next
  case (KeyDown ev)
  then show ?thesis by (simp add: foldl_same [where g = observers] run_keys_regs)
next
  case (Click r)
  then show ?thesis by (simp add: foldl_same [where g = observers] run_click_regs)
next
  case DOMContentLoaded
  have "prefix (observers (s\<lparr>readyLoading := False\<rparr>))
          (observers (foldl (\<lambda>x t. run_task t x) (s\<lparr>readyLoading := False\<rparr>) (dcl_listeners s)))"
    by (rule foldl_prefix [where g = observers]) (rule run_task_regs)
  then show ?thesis using DOMContentLoaded by simp
qed

text \<open>
  A batch delivered while the watcher of the first revision is subscribed adds at least
  one interval timer, and exactly one when it is the only subscriber.
\<close>

lemma foldl_observers_grow:
  assumes "Watch_v1 \<in> set obs"
  shows "length (intervals s) < length (intervals (foldl (\<lambda>x ob. run_observer ob x) s obs))"
  using assms
proof (induction obs arbitrary: s)
  case Nil
  then show ?case by simp
next
  case (Cons ob obs)
  have mono: "length (intervals (run_observer ob s)) \<le>
              length (intervals (foldl (\<lambda>x ob. run_observer ob x) (run_observer ob s) obs))"
    by (intro prefix_length_le foldl_prefix [where g = intervals]) (rule run_observer_regs)
  show ?case
  proof (cases "ob = Watch_v1")
    case True
    then have "length (intervals (run_observer ob s)) = Suc (length (intervals s))"
      by (simp add: callback_v1_regs)
    with mono show ?thesis by simp
  next
    case False
    with Cons.prems have "Watch_v1 \<in> set obs" by simp
    from Cons.IH [OF this, of "run_observer ob s"]
    have "length (intervals (run_observer ob s)) <
          length (intervals (foldl (\<lambda>x ob. run_observer ob x) (run_observer ob s) obs))" .
    moreover have "length (intervals s) \<le> length (intervals (run_observer ob s))"
      by (intro prefix_length_le) (rule run_observer_regs)
    ultimately show ?thesis by simp
  qed
qed

lemma mutation_v1_pow:
  assumes "observers s = [Watch_v1]"
  shows "observers ((step Mutation ^^ n) s) = [Watch_v1] \<and>
         intervals ((step Mutation ^^ n) s) = intervals s @ replicate n (1000, SetPlaceholder_v1)"
proof (induction n)
  case 0
  show ?case using assms by simp
next
  case (Suc n)
  then show ?case
    by (simp add: callback_v1_regs replicate_append_same)
qed

section \<open>Interval timers\<close>

lemma run_intervals_grow:
  assumes "Watch_v1 \<in> set (observers s)"
  shows "length (intervals s) + count_list evs Mutation \<le> length (intervals (run evs s))"
  using assms
proof (induction evs arbitrary: s)
  case Nil
  show ?case by (simp add: run_def)
next
  case (Cons e evs)
  have w: "Watch_v1 \<in> set (observers (step e s))"
    using Cons.prems set_mono_prefix [OF step_observers [of s e]] by blast
  have r: "\<And>x. run (x # evs) s = run evs (step x s)"
    by (simp add: run_def)
  have "length (intervals s) + (if e = Mutation then 1 else 0) \<le> length (intervals (step e s))"
  proof (cases "e = Mutation")
    case True
    then show ?thesis using foldl_observers_grow [OF Cons.prems, of s] by simp
  next
    case False
    then show ?thesis using prefix_length_le [OF step_intervals [of s e]] by simp
  qed
  with Cons.IH [OF w] show ?case
    by (cases "e = Mutation") (simp_all add: r del: step.simps)
qed

text \<open>
  C10. Every call of updatePlaceholder (first revision) registers one more 1000 ms
  interval timer; no event of the page removes an interval timer (the script never
  clears one); so each mutation batch delivered while the watcher is subscribed leaves
  more interval timers than before, and over any sequence of events the number of
  interval timers grows by at least the number of mutation batches in it. With the
  watcher as the only subscriber, \<open>n\<close> batches add exactly \<open>n\<close> timers.
\<close>

theorem C10_interval_timers_accumulate:
  assumes "Watch_v1 \<in> set (observers s)"
  shows "intervals (updatePlaceholder_v1 s) = intervals s @ [(1000, SetPlaceholder_v1)] \<and>
         intervals (callback_v1 s) = intervals s @ [(1000, SetPlaceholder_v1)] \<and>
         prefix (intervals s) (intervals (step e s)) \<and>
         length (intervals s) < length (intervals (step Mutation s)) \<and>
         length (intervals s) + count_list evs Mutation \<le> length (intervals (run evs s)) \<and>
         (observers s = [Watch_v1] \<longrightarrow>
            intervals ((step Mutation ^^ n) s) =
              intervals s @ replicate n (1000, SetPlaceholder_v1))"
  using assms foldl_observers_grow [OF assms, of s] run_intervals_grow [OF assms, of evs]
  by (simp add: updatePlaceholder_v1_regs callback_v1_regs step_intervals mutation_v1_pow)

theorem C10_interval_timers_accumulate_witness:
  "Watch_v1 \<in> set (observers (script_v1 host_page)) \<and>
   intervals (script_v1 host_page) = [(1000, SetPlaceholder_v1)] \<and>
   length (intervals (step Mutation (script_v1 host_page))) > 1 \<and>
   3 \<le> length (intervals (run [Mutation, KeyDown ctrl_enter, Mutation] (script_v1 host_page))) \<and>
   intervals ((step Mutation ^^ 3) (script_v1 host_page)) =
     [(1000, SetPlaceholder_v1), (1000, SetPlaceholder_v1),
      (1000, SetPlaceholder_v1), (1000, SetPlaceholder_v1)]"
proof -
  have l: "\<not> readyLoading host_page" "observers host_page = []" "intervals host_page = []"
    by (simp_all add: host_page_def)
  have o: "observers (script_v1 host_page) = [Watch_v1]"
    and i: "intervals (script_v1 host_page) = [(1000, SetPlaceholder_v1)]"
    by (simp_all add: script_v1_def l onReady_v1_regs)
  have w: "Watch_v1 \<in> set (observers (script_v1 host_page))"
    by (simp add: o)
  have c: "count_list [Mutation, KeyDown ctrl_enter, Mutation] Mutation = 2"
    by simp
  have r: "replicate 3 (1000::nat, SetPlaceholder_v1) =
           [(1000, SetPlaceholder_v1), (1000, SetPlaceholder_v1), (1000, SetPlaceholder_v1)]"
    by (simp add: numeral_3_eq_3)
  show ?thesis
    using w C10_interval_timers_accumulate [OF w, of Mutation
            "[Mutation, KeyDown ctrl_enter, Mutation]" 3]
    by (simp add: o i c r del: step.simps)
qed

section \<open>Initialization\<close>

lemma script_v2_ready:
  assumes "\<not> readyLoading s"
  shows "timeouts (script_v2 s) = timeouts (onReady_v2 s) @ [(1000, OnReady_v2)]"
    and "step (Timeout (length (timeouts (onReady_v2 s)))) (script_v2 s) = onReady_v2 (onReady_v2 s)"
  using assms by (simp_all add: script_v2_def setTimeout_def)







lemma onReady_v2_host_timeouts:
  "timeouts (onReady_v2 host_page) = [(500, FocusInput), (1000, InsertPanel [6, 7, 8, 9, 10])]"
  by (simp add: onReady_v2_def observeChanges_v2_def addWelcomeAnimation_v2_def
        setupKeyboardShortcuts_v2_def addQuickActions_v2_def focusInput_def
        updatePlaceholder_v2_def setPlaceholder_v2_def examples_v2_def button_v2_def
        prim_defs query_defs page_defs)

lemma step_first_timeout:
  assumes "timeouts y = (ms, f) # ts"
  shows "step (Timeout 0) y = run_task f (y\<lparr>timeouts := ts\<rparr>)"
  using assms by simp

lemma script_v2_host_fired:
  "step (Timeout 0) (script_v2 host_page) =
     focusInput_fire ((script_v2 host_page)
       \<lparr>timeouts := [(1000, InsertPanel [6, 7, 8, 9, 10]), (1000, OnReady_v2)]\<rparr>)"
  "run [Timeout 0, Timeout 0] (script_v2 host_page) =
     insertPanel_v2 [6, 7, 8, 9, 10]
       ((step (Timeout 0) (script_v2 host_page))\<lparr>timeouts := [(1000, OnReady_v2)]\<rparr>)"
  "run [Timeout 0, Timeout 0, Timeout 0] (script_v2 host_page) =
     onReady_v2 ((run [Timeout 0, Timeout 0] (script_v2 host_page))\<lparr>timeouts := []\<rparr>)"
proof -
  define y0 where "y0 = script_v2 host_page"
  define y1 where "y1 = step (Timeout 0) y0"
  define y2 where "y2 = step (Timeout 0) y1"
  have r: "\<not> readyLoading host_page"
    by (simp add: host_page_def)
  have t0: "timeouts y0 =
             [(500, FocusInput), (1000, InsertPanel [6, 7, 8, 9, 10]), (1000, OnReady_v2)]"
    by (simp add: y0_def script_v2_ready(1) [OF r] onReady_v2_host_timeouts)
  have a: "y1 = focusInput_fire (y0\<lparr>timeouts :=
                  [(1000, InsertPanel [6, 7, 8, 9, 10]), (1000, OnReady_v2)]\<rparr>)"
    unfolding y1_def step_first_timeout [OF t0] by simp
  have t1: "timeouts y1 = [(1000, InsertPanel [6, 7, 8, 9, 10]), (1000, OnReady_v2)]"
    unfolding a by (simp add: focusInput_regs)
  have b: "y2 = insertPanel_v2 [6, 7, 8, 9, 10] (y1\<lparr>timeouts := [(1000, OnReady_v2)]\<rparr>)"
    unfolding y2_def step_first_timeout [OF t1] by simp
  have t2: "timeouts y2 = [(1000, OnReady_v2)]"
    unfolding b by (simp add: insertPanel_v2_regs)
  have c: "step (Timeout 0) y2 = onReady_v2 (y2\<lparr>timeouts := []\<rparr>)"
    unfolding step_first_timeout [OF t2] by simp
  have r2: "run [Timeout 0, Timeout 0] y0 = y2"
    and r3: "run [Timeout 0, Timeout 0, Timeout 0] y0 = step (Timeout 0) y2"
    by (simp_all add: run_def y1_def y2_def del: step.simps)
  show "step (Timeout 0) (script_v2 host_page) =
     focusInput_fire ((script_v2 host_page)
       \<lparr>timeouts := [(1000, InsertPanel [6, 7, 8, 9, 10]), (1000, OnReady_v2)]\<rparr>)"
    using a by (simp only: y1_def y0_def)
  show "run [Timeout 0, Timeout 0] (script_v2 host_page) =
     insertPanel_v2 [6, 7, 8, 9, 10]
       ((step (Timeout 0) (script_v2 host_page))\<lparr>timeouts := [(1000, OnReady_v2)]\<rparr>)"
    using b r2 by (simp only: y1_def y0_def)
  show "run [Timeout 0, Timeout 0, Timeout 0] (script_v2 host_page) =
     onReady_v2 ((run [Timeout 0, Timeout 0] (script_v2 host_page))\<lparr>timeouts := []\<rparr>)"
    using c r2 r3 by (simp only: y0_def)
qed

lemma script_v2_host_regs:
  "observers (run [Timeout 0, Timeout 0] (script_v2 host_page)) = [Watch_v2]"
  "keydown_listeners (run [Timeout 0, Timeout 0] (script_v2 host_page)) = [Keys_v2]"
proof -
  have r: "\<not> readyLoading host_page" "observers host_page = []"
    "keydown_listeners host_page = []"
    by (simp_all add: host_page_def)
  show "observers (run [Timeout 0, Timeout 0] (script_v2 host_page)) = [Watch_v2]"
    "keydown_listeners (run [Timeout 0, Timeout 0] (script_v2 host_page)) = [Keys_v2]"
    unfolding script_v2_host_fired
    by (simp_all add: insertPanel_v2_regs focusInput_regs script_v2_def setTimeout_def r
                      onReady_v2_regs)
qed


section \<open>The document under the functions of the script\<close>

lemma same_shape_refl: "same_shape s s"
  by (simp add: same_shape_def)

lemma same_shape_trans: "same_shape a b \<Longrightarrow> same_shape b c \<Longrightarrow> same_shape a c"
  by (simp add: same_shape_def)

lemma shape_reads:
  assumes "shape e = shape e'"
  shows "ident e = ident e'" "sel_textarea e = sel_textarea e'" "sel_send_v1 e = sel_send_v1 e'"
    "sel_send_v2 e = sel_send_v2 e'" "sel_messages_v1 e = sel_messages_v1 e'"
    "sel_composer_v2 e = sel_composer_v2 e'" "sel_quick_btn e = sel_quick_btn e'"
  using assms
  by (simp_all add: shape_def sel_textarea_def sel_send_v1_def sel_send_v2_def
                    sel_messages_v1_def sel_composer_v2_def sel_quick_btn_def)

lemma same_shape_nodes: "same_shape s s' \<Longrightarrow> nodes s' = nodes s"
  by (simp add: same_shape_def nodes_def)

lemma same_shape_store: "same_shape s s' \<Longrightarrow> shape (store s' r) = shape (store s r)"
  by (simp add: same_shape_def)

lemma same_shape_ids:
  assumes "same_shape s s'"
  shows "getElementById i s' = getElementById i s" "count_id i s' = count_id i s"
    "wf_page s' = wf_page s"
  using assms shape_reads(1) [OF same_shape_store [OF assms]]
  by (simp_all add: getElementById_def count_id_def wf_page_def same_shape_nodes)
     (simp_all add: same_shape_def)

lemma same_shape_query:
  assumes "same_shape s s'"
  shows "querySelector sel_textarea s' = querySelector sel_textarea s"
    "querySelector sel_send_v1 s' = querySelector sel_send_v1 s"
    "querySelector sel_send_v2 s' = querySelector sel_send_v2 s"
    "querySelector sel_messages_v1 s' = querySelector sel_messages_v1 s"
    "querySelector sel_composer_v2 s' = querySelector sel_composer_v2 s"
  using shape_reads [OF same_shape_store [OF assms]]
  by (simp_all add: querySelector_def same_shape_nodes [OF assms])

lemma same_shape_upd:
  assumes "\<And>e. shape (f e) = shape e"
  shows "same_shape s (upd r f s)"
  by (simp add: same_shape_def upd_def assms)

lemma same_shape_setPlaceholder:
  "same_shape s (setPlaceholder_v1 s)" "same_shape s (setPlaceholder_v2 s)"
  by (simp_all add: setPlaceholder_v1_def setPlaceholder_v2_def same_shape_def upd_def shape_def
               split: option.splits)

lemma same_shape_updatePlaceholder:
  "same_shape s (updatePlaceholder_v1 s)" "same_shape s (updatePlaceholder_v2 s)"
  using same_shape_setPlaceholder [of s]
  by (simp_all add: updatePlaceholder_v1_def updatePlaceholder_v2_def same_shape_def
                    setInterval_def)

lemma same_shape_regs:
  "same_shape s (setTimeout f ms s)" "same_shape s (setInterval f ms s)"
  "same_shape s (focusInput s)" "same_shape s (focusInput_fire s)"
  "same_shape s (setupKeyboardShortcuts_v1 s)" "same_shape s (setupKeyboardShortcuts_v2 s)"
  "same_shape s (observeChanges_v1 s)" "same_shape s (observeChanges_v2 s)"
  "same_shape s (sendMessage_fire b s)"
  "same_shape s (s\<lparr>timeouts := ts\<rparr>)" "same_shape s (s\<lparr>console := c\<rparr>)"
  by (simp_all add: same_shape_def setTimeout_def setInterval_def focusInput_def
        focusInput_fire_def focus_def setupKeyboardShortcuts_v1_def
        setupKeyboardShortcuts_v2_def observeChanges_v1_def observeChanges_v2_def
        sendMessage_fire_def click_def split: option.splits)

lemma same_shape_callback_v2: "same_shape s (callback_v2 s)"
  using same_shape_updatePlaceholder(2) [of s]
  by (simp add: callback_v2_def same_shape_refl split: option.splits)

lemma same_shape_callback_v1: "same_shape s (callback_v1 s)"
  using same_shape_updatePlaceholder(1) [of s]
  by (simp add: callback_v1_def Let_def same_shape_def setTimeout_def)

lemma same_shape_sendMessage_v1: "same_shape s (sendMessage_v1 txt s)"
  by (simp add: sendMessage_v1_def Let_def same_shape_def shape_def prim_defs split: option.splits)

lemma same_shape_fillQuery_v2: "same_shape s (fillQuery_v2 q s)"
  by (simp add: fillQuery_v2_def same_shape_def shape_def prim_defs split: option.splits)

text \<open>The callback of the first revision, with the panel absent.\<close>

lemma callback_v1_absent:
  assumes "getElementById ''quick-actions'' s = None"
  shows "callback_v1 s = setTimeout AddQuickActions_v1 500 (updatePlaceholder_v1 s)"
  using assms same_shape_ids(1) [OF same_shape_updatePlaceholder(1), of "''quick-actions''" s]
  by (simp add: callback_v1_def Let_def)

lemma insert_after_set: "set (insert_after a sub xs) \<subseteq> set xs \<union> set sub"
  by (induction xs) auto

lemma insert_before_set: "set (insert_before a sub xs) \<subseteq> set xs \<union> set sub"
  by (induction xs) auto

lemma nodes_insertAfterBegin: "set (nodes (insertAfterBegin a sub s)) \<subseteq> set (nodes s) \<union> set sub"
  using insert_after_set [of a sub "filter (\<lambda>r. r \<notin> set sub) (head_nodes s)"]
        insert_after_set [of a sub "filter (\<lambda>r. r \<notin> set sub) (body_nodes s)"]
  by (auto simp: insertAfterBegin_def place_def detach_def nodes_def)

lemma nodes_insertBeforeBegin: "set (nodes (insertBeforeBegin a sub s)) \<subseteq> set (nodes s) \<union> set sub"
  using insert_before_set [of a sub "filter (\<lambda>r. r \<notin> set sub) (head_nodes s)"]
        insert_before_set [of a sub "filter (\<lambda>r. r \<notin> set sub) (body_nodes s)"]
  by (auto simp: insertBeforeBegin_def place_def detach_def nodes_def)

lemma next_ref_insert:
  "next_ref (insertAfterBegin a sub s) = next_ref s"
  "next_ref (insertBeforeBegin a sub s) = next_ref s"
  by (simp_all add: insertAfterBegin_def insertBeforeBegin_def place_def detach_def)

lemma wf_addQuickActions_v1:
  assumes "wf_page s"
  shows "wf_page (addQuickActions_v1 s)"
proof (cases "getElementById ''quick-actions'' s = None")
  case False
  then show ?thesis using assms by (simp add: addQuickActions_v1_present)
next
  case True
  define s1 where "s1 = snd (create_all panel_v1 s)"
  define c where "c = fst (create_all panel_v1 s)"
  have n: "next_ref s1 = next_ref s + 16"
    by (simp add: s1_def create_all_next length_panel_v1)
  have c: "\<forall>r \<in> set c. r < next_ref s1"
    by (simp add: c_def create_all_fst n length_panel_v1)
  have w1: "wf_page s1"
    using assms by (auto simp: wf_page_def s1_def create_all_nodes n [unfolded s1_def])
  show ?thesis
  proof (cases "querySelector sel_messages_v1 s1")
    case None
    then show ?thesis using True w1
      by (simp add: addQuickActions_v1_def case_prod_beta s1_def Let_def)
  next
    case (Some m)
    have "\<forall>r \<in> set (nodes (insertAfterBegin m c s1)). r < next_ref s1"
      using nodes_insertAfterBegin [of m c s1] w1 c by (auto simp: wf_page_def)
    then show ?thesis using True Some
      by (simp add: addQuickActions_v1_def case_prod_beta s1_def [symmetric] c_def [symmetric]
                    Let_def wf_page_def nodes_def next_ref_insert)
  qed
qed

section \<open>Self-healing of the panel\<close>

lemma callback_v1_timer:
  assumes "wf_page s" and "getElementById ''quick-actions'' s = None"
    and "querySelector sel_messages_v1 s = Some m"
  shows "count_id ''quick-actions'' (step (Timeout (length (timeouts s))) (callback_v1 s)) = 1"
proof -
  define s1 where "s1 = callback_v1 s"
  define s2 where "s2 = s1\<lparr>timeouts := timeouts s\<rparr>"
  have t: "timeouts s1 = timeouts s @ [(500, AddQuickActions_v1)]"
    by (simp add: s1_def callback_v1_absent [OF assms(2)] setTimeout_def updatePlaceholder_v1_regs)
  have sh: "same_shape s s2"
    unfolding s2_def s1_def
    by (rule same_shape_trans [OF same_shape_callback_v1 same_shape_regs(10)])
  have w: "wf_page s2" and g: "getElementById ''quick-actions'' s2 = None"
    and q: "querySelector sel_messages_v1 s2 = Some m"
    using assms by (simp_all add: same_shape_ids [OF sh] same_shape_query [OF sh])
  have "step (Timeout (length (timeouts s))) s1 = addQuickActions_v1 s2"
    by (simp add: t s2_def)
  then show ?thesis
    by (simp add: s1_def [symmetric] addQuickActions_v1_count [OF w g q])
qed

lemma callback_v1_twice_timers:
  assumes "wf_page s" and "getElementById ''quick-actions'' s = None"
    and "querySelector sel_messages_v1 s = Some m"
  shows "count_id ''quick-actions''
           (step (Timeout (length (timeouts s)))
              (step (Timeout (length (timeouts s))) (callback_v1 (callback_v1 s)))) = 1"
proof -
  define k where "k = length (timeouts s)"
  define s1 where "s1 = callback_v1 s"
  define s2 where "s2 = callback_v1 s1"
  define s3 where "s3 = s2\<lparr>timeouts := timeouts s @ [(500, AddQuickActions_v1)]\<rparr>"
  define s4 where "s4 = addQuickActions_v1 s3"
  define s5 where "s5 = s4\<lparr>timeouts := timeouts s\<rparr>"
  have g1: "getElementById ''quick-actions'' s1 = None"
    using assms(2) by (simp add: s1_def same_shape_ids(1) [OF same_shape_callback_v1])
  have t1: "timeouts s1 = timeouts s @ [(500, AddQuickActions_v1)]"
    by (simp add: s1_def callback_v1_absent [OF assms(2)] setTimeout_def
                  updatePlaceholder_v1_regs)
  have t2: "timeouts s2 = timeouts s @ [(500, AddQuickActions_v1), (500, AddQuickActions_v1)]"
    by (simp add: s2_def callback_v1_absent [OF g1] setTimeout_def updatePlaceholder_v1_regs t1)
  have sh: "same_shape s s3"
    unfolding s3_def s2_def s1_def
    by (rule same_shape_trans [OF same_shape_callback_v1
               same_shape_trans [OF same_shape_callback_v1 same_shape_regs(10)]])
  have w: "wf_page s3" and g: "getElementById ''quick-actions'' s3 = None"
    and q: "querySelector sel_messages_v1 s3 = Some m"
    using assms by (simp_all add: same_shape_ids [OF sh] same_shape_query [OF sh])
  have one: "count_id ''quick-actions'' s4 = 1"
    unfolding s4_def by (rule addQuickActions_v1_count [OF w g q])
  have f1: "step (Timeout k) s2 = s4"
    by (simp add: t2 k_def s4_def s3_def)
  have t4: "timeouts s4 = timeouts s @ [(500, AddQuickActions_v1)]"
    by (simp add: s4_def addQuickActions_v1_regs s3_def)
  have sh5: "same_shape s4 s5"
    unfolding s5_def by (rule same_shape_regs(10))
  have g5: "getElementById ''quick-actions'' s5 \<noteq> None"
    using one count_id_0 [of "''quick-actions''" s4] by (simp add: same_shape_ids(1) [OF sh5])
  have f2: "step (Timeout k) s4 = s5"
    using addQuickActions_v1_present [OF g5] by (simp add: t4 k_def s5_def)
  show ?thesis
    unfolding k_def [symmetric] s1_def [symmetric] s2_def [symmetric] f1 f2
    by (simp add: same_shape_ids(2) [OF sh5] one)
qed

lemma callback_v1_placeholder:
  assumes "getElementById ''quick-actions'' s = None"
    and "querySelector sel_textarea s = Some t" and "\<not> truthy (placeholderSet (store s t))"
  shows "placeholder (store (callback_v1 s) t) = placeholder_text_v1"
    and "placeholderSet (store (callback_v1 s) t) = Some ''true''"
  using assms(2,3)
  by (simp_all add: callback_v1_absent [OF assms(1)] setTimeout_def updatePlaceholder_v1_def
                    setInterval_def setPlaceholder_v1_def upd_def)

lemma callback_v2_placeholder:
  assumes "querySelector sel_textarea s = Some t" and "\<not> truthy (placeholderSet (store s t))"
  shows "placeholder (store (callback_v2 s) t) = placeholder_text_v2"
    and "placeholderSet (store (callback_v2 s) t) = Some ''true''"
    and "intervals (callback_v2 s) = intervals s @ [(1000, SetPlaceholder_v2)]"
  using assms
  by (simp_all add: callback_v2_def updatePlaceholder_v2_def setInterval_def
                    setPlaceholder_v2_def upd_def)

lemma callback_v2_idle:
  assumes "querySelector sel_textarea s = None \<or>
           (\<exists>t. querySelector sel_textarea s = Some t \<and> truthy (placeholderSet (store s t)))"
  shows "callback_v2 s = s"
  using assms by (auto simp: callback_v2_def)

text \<open>
  C1, as the code has it. The panel is absent and a message container is in the
  document; \<open>k\<close> is the number of timers pending before the batch.

  First revision: one mutation batch delivered to the callback re-runs the placeholder
  maintainer (an unmarked input field gets the placeholder and the marker, and one more
  interval timer is registered) and schedules addQuickActions 500 ms later; that is all
  it does, so the panel is still absent when the callback returns. When the timer
  fires, exactly one element with the id is in the document. Two batches before any
  timer fires schedule addQuickActions twice; after both timers have fired there is
  still exactly one such element, since the second run finds the panel and returns.

  Second revision: the callback re-runs the placeholder maintainer when there is an
  input field without the marker (which registers one more interval timer), and does
  nothing otherwise. It never calls addQuickActions: the document's elements and the
  pending timers are as before, and the panel stays absent.

  A batch delivered to a page with one subscriber runs that callback.
\<close>

theorem C1_restore_deferred:
  assumes "wf_page s" and "getElementById ''quick-actions'' s = None"
    and "querySelector sel_messages_v1 s = Some m"
  shows "callback_v1 s = setTimeout AddQuickActions_v1 500 (updatePlaceholder_v1 s) \<and>
         intervals (callback_v1 s) = intervals s @ [(1000, SetPlaceholder_v1)] \<and>
         (\<forall>t. querySelector sel_textarea s = Some t \<and> \<not> truthy (placeholderSet (store s t)) \<longrightarrow>
            placeholder (store (callback_v1 s) t) = placeholder_text_v1 \<and>
            placeholderSet (store (callback_v1 s) t) = Some ''true'') \<and>
         count_id ''quick-actions'' (callback_v1 s) = 0 \<and>
         timeouts (callback_v1 s) = timeouts s @ [(500, AddQuickActions_v1)] \<and>
         count_id ''quick-actions'' (step (Timeout (length (timeouts s))) (callback_v1 s)) = 1 \<and>
         count_id ''quick-actions''
           (step (Timeout (length (timeouts s)))
              (step (Timeout (length (timeouts s))) (callback_v1 (callback_v1 s)))) = 1 \<and>
         (\<forall>t. querySelector sel_textarea s = Some t \<and> \<not> truthy (placeholderSet (store s t)) \<longrightarrow>
            callback_v2 s = updatePlaceholder_v2 s \<and>
            placeholder (store (callback_v2 s) t) = placeholder_text_v2 \<and>
            placeholderSet (store (callback_v2 s) t) = Some ''true'' \<and>
            intervals (callback_v2 s) = intervals s @ [(1000, SetPlaceholder_v2)]) \<and>
         (querySelector sel_textarea s = None \<or>
          (\<exists>t. querySelector sel_textarea s = Some t \<and> truthy (placeholderSet (store s t))) \<longrightarrow>
            callback_v2 s = s) \<and>
         count_id ''quick-actions'' (callback_v2 s) = 0 \<and>
         nodes (callback_v2 s) = nodes s \<and>
         timeouts (callback_v2 s) = timeouts s \<and>
         (observers s = [Watch_v1] \<longrightarrow> step Mutation s = callback_v1 s) \<and>
         (observers s = [Watch_v2] \<longrightarrow> step Mutation s = callback_v2 s)"
proof -
  have a: "count_id ''quick-actions'' (callback_v1 s) = 0"
    using assms(2) by (simp add: same_shape_ids(2) [OF same_shape_callback_v1] count_id_0)
  have b: "timeouts (callback_v1 s) = timeouts s @ [(500, AddQuickActions_v1)]"
    by (simp add: callback_v1_absent [OF assms(2)] setTimeout_def updatePlaceholder_v1_regs)
  have c: "count_id ''quick-actions'' (callback_v2 s) = 0"
    using assms(2) by (simp add: same_shape_ids(2) [OF same_shape_callback_v2] count_id_0)
  have d: "nodes (callback_v2 s) = nodes s"
    by (rule same_shape_nodes [OF same_shape_callback_v2])
  have e: "observers s = [Watch_v1] \<longrightarrow> step Mutation s = callback_v1 s"
    "observers s = [Watch_v2] \<longrightarrow> step Mutation s = callback_v2 s"
    by simp_all
  have f: "\<forall>t. querySelector sel_textarea s = Some t \<and> \<not> truthy (placeholderSet (store s t)) \<longrightarrow>
            placeholder (store (callback_v1 s) t) = placeholder_text_v1 \<and>
            placeholderSet (store (callback_v1 s) t) = Some ''true''"
    by (simp add: callback_v1_placeholder [OF assms(2)])
  have g: "\<forall>t. querySelector sel_textarea s = Some t \<and> \<not> truthy (placeholderSet (store s t)) \<longrightarrow>
            callback_v2 s = updatePlaceholder_v2 s \<and>
            placeholder (store (callback_v2 s) t) = placeholder_text_v2 \<and>
            placeholderSet (store (callback_v2 s) t) = Some ''true'' \<and>
            intervals (callback_v2 s) = intervals s @ [(1000, SetPlaceholder_v2)]"
  proof (intro allI impI)
    fix t
    assume q: "querySelector sel_textarea s = Some t \<and> \<not> truthy (placeholderSet (store s t))"
    then have "callback_v2 s = updatePlaceholder_v2 s"
      by (simp add: callback_v2_def)
    with q callback_v2_placeholder [of s t]
    show "callback_v2 s = updatePlaceholder_v2 s \<and>
          placeholder (store (callback_v2 s) t) = placeholder_text_v2 \<and>
          placeholderSet (store (callback_v2 s) t) = Some ''true'' \<and>
          intervals (callback_v2 s) = intervals s @ [(1000, SetPlaceholder_v2)]"
      by blast
  qed
  have h: "querySelector sel_textarea s = None \<or>
          (\<exists>t. querySelector sel_textarea s = Some t \<and> truthy (placeholderSet (store s t))) \<longrightarrow>
            callback_v2 s = s"
    using callback_v2_idle [of s] by blast
  show ?thesis
    using a b c d e f g h callback_v1_timer [OF assms] callback_v1_twice_timers [OF assms]
      callback_v1_absent [OF assms(2)] callback_v1_regs(1) [of s] callback_v2_regs(2) [of s]
    by (simp only:)
qed

theorem C1_restore_deferred_witness:
  "wf_page host_page \<and> getElementById ''quick-actions'' host_page = None \<and>
   querySelector sel_messages_v1 host_page = Some 2 \<and>
   querySelector sel_textarea host_page = Some 4 \<and>
   \<not> truthy (placeholderSet (store host_page 4)) \<and>
   intervals (callback_v1 host_page) = [(1000, SetPlaceholder_v1)] \<and>
   placeholder (store (callback_v1 host_page) 4) = placeholder_text_v1 \<and>
   count_id ''quick-actions'' (callback_v1 host_page) = 0 \<and>
   timeouts (callback_v1 host_page) = [(500, AddQuickActions_v1)] \<and>
   count_id ''quick-actions'' (step (Timeout 0) (callback_v1 host_page)) = 1 \<and>
   count_id ''quick-actions''
     (step (Timeout 0) (step (Timeout 0) (callback_v1 (callback_v1 host_page)))) = 1 \<and>
   placeholder (store (callback_v2 host_page) 4) = placeholder_text_v2 \<and>
   intervals (callback_v2 host_page) = [(1000, SetPlaceholder_v2)] \<and>
   timeouts (callback_v2 host_page) = [] \<and>
   count_id ''quick-actions'' (callback_v2 host_page) = 0"
proof -
  have w: "wf_page host_page" and g: "getElementById ''quick-actions'' host_page = None"
    and q: "querySelector sel_messages_v1 host_page = Some 2"
    and a: "querySelector sel_textarea host_page = Some 4"
    and p: "\<not> truthy (placeholderSet (store host_page 4))"
    by (simp_all add: wf_page_def query_defs page_defs)
  have t: "timeouts host_page = []" "intervals host_page = []"
    by (simp_all add: host_page_def)
  have "intervals (callback_v1 host_page) = intervals host_page @ [(1000, SetPlaceholder_v1)] \<and>
        placeholder (store (callback_v1 host_page) 4) = placeholder_text_v1 \<and>
        count_id ''quick-actions'' (callback_v1 host_page) = 0 \<and>
        timeouts (callback_v1 host_page) = timeouts host_page @ [(500, AddQuickActions_v1)] \<and>
        count_id ''quick-actions''
          (step (Timeout (length (timeouts host_page))) (callback_v1 host_page)) = 1 \<and>
        count_id ''quick-actions''
          (step (Timeout (length (timeouts host_page)))
             (step (Timeout (length (timeouts host_page)))
                (callback_v1 (callback_v1 host_page)))) = 1 \<and>
        placeholder (store (callback_v2 host_page) 4) = placeholder_text_v2 \<and>
        intervals (callback_v2 host_page) = intervals host_page @ [(1000, SetPlaceholder_v2)] \<and>
        timeouts (callback_v2 host_page) = timeouts host_page \<and>
        count_id ''quick-actions'' (callback_v2 host_page) = 0"
    using a p C1_restore_deferred [OF w g q] by blast
  then show ?thesis
    using w g q a p by (simp add: t del: step.simps)
qed

lemmas v1_defs = script_v1_def onReady_v1_def observeChanges_v1_def addWelcomeAnimation_v1_def
  setupKeyboardShortcuts_v1_def addQuickActions_v1_def focusInput_def focusInput_fire_def
  updatePlaceholder_v1_def setPlaceholder_v1_def callback_v1_def panel_v1_def quick_btn_v1_def
  sendMessage_v1_def sendMessage_fire_def keys_v1_def

lemmas v2_defs = script_v2_def onReady_v2_def observeChanges_v2_def addWelcomeAnimation_v2_def
  setupKeyboardShortcuts_v2_def addQuickActions_v2_def insertPanel_v2_def
  updatePlaceholder_v2_def setPlaceholder_v2_def callback_v2_def examples_v2_def button_v2_def
  fillQuery_v2_def keys_v2_def focusInput_def focusInput_fire_def

lemma present_v1_count: "count_id ''quick-actions'' present_v1 = 1"
  by (simp add: present_v1_def v1_defs prim_defs query_defs page_defs)

lemma removed_v1_count: "count_id ''quick-actions'' removed_v1 = 0"
  by (simp add: removed_v1_def present_v1_def v1_defs prim_defs query_defs page_defs)

lemma present_v2_count: "count_id ''quick-actions'' present_v2 = 1"
  by (simp add: present_v2_def run_def v2_defs prim_defs query_defs page_defs)

lemma removed_v2_count: "count_id ''quick-actions'' removed_v2 = 0"
  by (simp add: removed_v2_def present_v2_def run_def v2_defs prim_defs query_defs page_defs)

lemma removed_v1_observers: "observers removed_v1 = [Watch_v1]"
  by (simp add: removed_v1_def present_v1_def removeSubtree_def detach_def script_v1_def
                onReady_v1_regs host_page_def)

lemma removed_v2_observers: "observers removed_v2 = [Watch_v2]"
  by (simp add: removed_v2_def present_v2_def removeSubtree_def detach_def script_v2_host_regs)

text \<open>
  C1 as stated fails in both revisions. The panel is present, the host removes it, one
  mutation batch is delivered: no element has the id afterwards. In the second revision
  the batch has not scheduled anything either.
\<close>

theorem C1_counterexample:
  "count_id ''quick-actions'' present_v1 = 1 \<and>
   count_id ''quick-actions'' removed_v1 = 0 \<and>
   observers removed_v1 = [Watch_v1] \<and>
   count_id ''quick-actions'' (step Mutation removed_v1) = 0 \<and>
   count_id ''quick-actions'' present_v2 = 1 \<and>
   count_id ''quick-actions'' removed_v2 = 0 \<and>
   observers removed_v2 = [Watch_v2] \<and>
   count_id ''quick-actions'' (step Mutation removed_v2) = 0 \<and>
   timeouts (step Mutation removed_v2) = timeouts removed_v2"
proof -
  have m1: "step Mutation removed_v1 = callback_v1 removed_v1"
    and m2: "step Mutation removed_v2 = callback_v2 removed_v2"
    by (simp_all add: removed_v1_observers removed_v2_observers)
  show ?thesis
    unfolding m1 m2
    by (simp add: same_shape_ids(2) [OF same_shape_callback_v1]
                  same_shape_ids(2) [OF same_shape_callback_v2] callback_v2_regs
                  present_v1_count removed_v1_count present_v2_count removed_v2_count
                  removed_v1_observers removed_v2_observers)
qed

section \<open>Idempotence of the injector\<close>

text \<open>
  The first revision inserts at the call, so the guard of the second call sees the
  panel: with a message container in the document, two calls leave one panel, and the
  second call changes nothing.
\<close>

theorem addQuickActions_v1_twice:
  assumes "wf_page s" and "getElementById ''quick-actions'' s = None"
    and "querySelector sel_messages_v1 s = Some m"
  shows "count_id ''quick-actions'' (addQuickActions_v1 (addQuickActions_v1 s)) = 1 \<and>
         addQuickActions_v1 (addQuickActions_v1 s) = addQuickActions_v1 s"
proof -
  have one: "count_id ''quick-actions'' (addQuickActions_v1 s) = 1"
    by (rule addQuickActions_v1_count [OF assms])
  then have "getElementById ''quick-actions'' (addQuickActions_v1 s) \<noteq> None"
    using count_id_0 [of "''quick-actions''" "addQuickActions_v1 s"] by simp
  then have "addQuickActions_v1 (addQuickActions_v1 s) = addQuickActions_v1 s"
    by (rule addQuickActions_v1_present)
  with one show ?thesis by simp
qed

theorem addQuickActions_v1_twice_witness:
  "wf_page host_page \<and> getElementById ''quick-actions'' host_page = None \<and>
   querySelector sel_messages_v1 host_page = Some 2 \<and>
   count_id ''quick-actions'' (addQuickActions_v1 (addQuickActions_v1 host_page)) = 1 \<and>
   addQuickActions_v1 (addQuickActions_v1 host_page) = addQuickActions_v1 host_page"
proof -
  have w: "wf_page host_page" and g: "getElementById ''quick-actions'' host_page = None"
    and q: "querySelector sel_messages_v1 host_page = Some 2"
    by (simp_all add: wf_page_def query_defs page_defs)
  show ?thesis
    using w g q addQuickActions_v1_twice [OF w g q] by blast
qed

text \<open>
  C3 on the second revision. Two calls in succession on the host page: both pass the
  guard, since the insertion waits for a 1000 ms timer, and each schedules the insertion
  of a container of its own. Before the timers no element has the id; after both have
  fired, two elements have it.
\<close>

theorem C3_v2_two_panels:
  "getElementById ''quick-actions'' (addQuickActions_v2 host_page) = None \<and>
   timeouts (addQuickActions_v2 (addQuickActions_v2 host_page)) =
     [(1000, InsertPanel [6, 7, 8, 9, 10]), (1000, InsertPanel [11, 12, 13, 14, 15])] \<and>
   count_id ''quick-actions'' (addQuickActions_v2 (addQuickActions_v2 host_page)) = 0 \<and>
   count_id ''quick-actions''
     (step (Timeout 0) (step (Timeout 0) (addQuickActions_v2 (addQuickActions_v2 host_page)))) = 2"
  by (simp add: v2_defs prim_defs query_defs page_defs)

text \<open>
  The script of the second revision makes the two calls itself when it is loaded while
  the document is loading: onReady runs on DOMContentLoaded and again from the timer of
  line 479. With the first run less than 500 ms after the script, the timers fire in
  this order: focusInput's, onReady's (the second call of addQuickActions, which passes
  the guard), the first insertion, focusInput's, the second insertion. Two elements
  have the id afterwards.
\<close>

theorem script_v2_boot_two_panels:
  "map fst (timeouts (run [DOMContentLoaded] (script_v2 loading_host_page))) = [1000, 500, 1000] \<and>
   count_id ''quick-actions''
     (run [DOMContentLoaded, Timeout 1, Timeout 0, Timeout 0, Timeout 0, Timeout 0]
        (script_v2 loading_host_page)) = 2"
  by (simp add: loading_host_page_def run_def v2_defs prim_defs query_defs page_defs)

section \<open>Absent targets\<close>

lemma create_all_doc:
  "head_nodes (snd (create_all es s)) = head_nodes s"
  "body_nodes (snd (create_all es s)) = body_nodes s"
  "active (snd (create_all es s)) = active s"
  "click_listeners (snd (create_all es s)) = click_listeners s"
  using create_all_frame [of es s] by auto

lemma doc_kept_refl: "doc_kept s s"
  by (simp add: doc_kept_def)

lemma doc_kept_create_all: "doc_kept s (snd (create_all es s))"
  by (simp add: doc_kept_def create_all_doc create_all_old)

lemma doc_kept_placeholder:
  assumes "querySelector sel_textarea s = None"
  shows "setPlaceholder_v1 s = s" "setPlaceholder_v2 s = s"
    "doc_kept s (updatePlaceholder_v1 s)" "doc_kept s (updatePlaceholder_v2 s)"
  using assms
  by (simp_all add: setPlaceholder_v1_def setPlaceholder_v2_def updatePlaceholder_v1_def
                    updatePlaceholder_v2_def setInterval_def doc_kept_def)

lemma doc_kept_addQuickActions_v1:
  assumes "wf_page s" and "querySelector sel_messages_v1 s = None"
  shows "doc_kept s (addQuickActions_v1 s)"
  using assms
  by (simp add: addQuickActions_v1_def case_prod_beta create_all_query doc_kept_create_all
                doc_kept_refl Let_def)

lemma doc_kept_addQuickActions_v2: "doc_kept s (addQuickActions_v2 s)"
proof -
  define s1 where "s1 = snd (createElement ((blank ''div'')\<lparr>ident := ''quick-actions''\<rparr>) s)"
  have a: "doc_kept s s1"
    by (simp add: s1_def doc_kept_def createElement_def)
  have n: "next_ref s \<le> next_ref s1"
    by (simp add: s1_def createElement_def)
  have b: "doc_kept s1 (snd (create_all (map button_v2 examples_v2) s1))"
    by (rule doc_kept_create_all)
  have "doc_kept s (snd (create_all (map button_v2 examples_v2) s1))"
    using a b n by (simp add: doc_kept_def)
  then show ?thesis
    by (simp add: addQuickActions_v2_def case_prod_beta s1_def setTimeout_def doc_kept_def
                  doc_kept_refl)
qed

lemma doc_kept_keys:
  assumes "querySelector sel_textarea s = None"
  shows "doc_kept s (keys_v1 e s)" "doc_kept s (keys_v2 e s)"
proof -
  have p: "querySelector sel_textarea (preventDefault s) = None"
    using assms by (simp add: querySelector_def nodes_def preventDefault_def)
  show "doc_kept s (keys_v1 e s)"
    using assms p by (simp add: keys_v1_def Let_def doc_kept_def preventDefault_def)
  show "doc_kept s (keys_v2 e s)"
    using assms p
    by (simp add: keys_v2_def Let_def doc_kept_def preventDefault_def click_def
             split: option.splits)
qed

text \<open>
  C9. Every function of the embedding is total and has no fault among its results: each
  property access of the source stands behind the test of the element it reads, which
  is the case distinction on the result of \<open>querySelector\<close>. With the input field absent,
  the timer of focusInput, sendMessage and setPlaceholder return the page as it is,
  focusInput and updatePlaceholder only register their timer, and the keyboard
  listeners leave the document as it is. With its anchor absent, addQuickActions of the
  first revision leaves the document as it is, and so does the insertion timer of the
  second (whose addQuickActions never touches the document at the call). Creating
  elements that are not inserted is not a change of the document.
\<close>

theorem C9_absent_target:
  assumes "wf_page s"
  shows "(querySelector sel_textarea s = None \<longrightarrow>
            run_task FocusInput s = s \<and> doc_kept s (focusInput s) \<and>
            sendMessage_v1 txt s = s \<and>
            run_task SetPlaceholder_v1 s = s \<and> doc_kept s (updatePlaceholder_v1 s) \<and>
            run_task SetPlaceholder_v2 s = s \<and> doc_kept s (updatePlaceholder_v2 s) \<and>
            doc_kept s (keys_v1 e s) \<and> doc_kept s (keys_v2 e s)) \<and>
         (querySelector sel_messages_v1 s = None \<longrightarrow> doc_kept s (addQuickActions_v1 s)) \<and>
         doc_kept s (addQuickActions_v2 s) \<and>
         (querySelector sel_composer_v2 s = None \<longrightarrow> run_task (InsertPanel c) s = s)"
proof -
  have f: "doc_kept s (focusInput s)"
    by (simp add: focusInput_def setTimeout_def doc_kept_def)
  show ?thesis
    using assms f
    by (simp add: focusInput_fire_def sendMessage_v1_absent doc_kept_placeholder
                  doc_kept_addQuickActions_v1 doc_kept_addQuickActions_v2 insertPanel_v2_def
                  doc_kept_keys)
qed

theorem C9_absent_target_witness:
  "wf_page bare_page \<and> querySelector sel_textarea bare_page = None \<and>
   querySelector sel_messages_v1 bare_page = None \<and>
   querySelector sel_composer_v2 bare_page = None \<and>
   run_task FocusInput bare_page = bare_page \<and>
   sendMessage_v1 ''DAM yesterday'' bare_page = bare_page \<and>
   nodes (updatePlaceholder_v1 bare_page) = [0, 1] \<and>
   nodes (addQuickActions_v1 bare_page) = [0, 1] \<and>
   store (addQuickActions_v1 bare_page) 0 = blank ''head'' \<and>
   run_task (InsertPanel [6, 7, 8, 9, 10]) bare_page = bare_page"
proof -
  have w: "wf_page bare_page"
    by (simp add: wf_page_def nodes_def page_defs)
  have q: "querySelector sel_textarea bare_page = None"
    "querySelector sel_messages_v1 bare_page = None"
    "querySelector sel_composer_v2 bare_page = None"
    by (simp_all add: query_defs page_defs)
  have b: "head_nodes bare_page = [0]" "body_nodes bare_page = [1]" "next_ref bare_page = 6"
    "store bare_page 0 = blank ''head''"
    by (simp_all add: page_defs)
  show ?thesis
    using w q C9_absent_target [OF w, of "''DAM yesterday''" ctrl_enter "[6, 7, 8, 9, 10]"]
    by (simp add: doc_kept_def nodes_def b del: run_task.simps)
qed

section \<open>Activation of a quick-action button\<close>



lemma create_all_above:
  "next_ref s + length es \<le> r \<Longrightarrow> store (snd (create_all es s)) r = store s r"
proof (induction es arbitrary: s)
  case Nil
  then show ?case by simp
next
  case (Cons e es)
  then show ?case by (simp add: case_prod_beta createElement_def)
qed

lemma create_all_store:
  "store (snd (create_all es s)) r =
     (if next_ref s \<le> r \<and> r < next_ref s + length es then es ! (r - next_ref s)
      else store s r)"
proof (cases "next_ref s \<le> r \<and> r < next_ref s + length es")
  case True
  then have "store (snd (create_all es s)) (next_ref s + (r - next_ref s)) = es ! (r - next_ref s)"
    by (intro create_all_new) arith
  with True show ?thesis by simp
next
  case False
  then have "r < next_ref s \<or> next_ref s + length es \<le> r" by arith
  with False show ?thesis by (auto simp: create_all_old create_all_above)
qed

































end
